theory Spec2Isabelle
  imports Complex_Main "HOL-Library.Word"
begin

unbundle bit_operations_syntax

section \<open>util/types.ts: the data model\<close>

text \<open>
  JavaScript numbers are modelled as rationals: every finite double is one, and arithmetic
  is taken without rounding. \<open>NaN\<close> appears only where \<^verbatim>\<open>Number(...)\<close> produces it.
\<close>

datatype jsnum = Finite rat | NaN

datatype onoff = On | Off

record DeviceRef =
  deviceId :: string
  model :: string

record DeviceInfo = DeviceRef +
  name :: "string option"
  capabilities :: "string list"

record rgb =
  r :: rat
  g :: rat
  b :: rat

record State =
  power_state :: "onoff option"
  brightness :: "jsnum option"
  color :: "rgb option"
  colorTem :: "jsnum option"
  scene :: "string option"

datatype ControlCmd =
    Turn onoff
  | Brightness rat
  | Color rgb
  | ColorTem rat
  | Scene string

text \<open>The discriminant \<^verbatim>\<open>cmd.name\<close> of the tagged union.\<close>

fun cmd_name :: "ControlCmd \<Rightarrow> string" where
  "cmd_name (Turn _) = ''turn''"
| "cmd_name (Brightness _) = ''brightness''"
| "cmd_name (Color _) = ''color''"
| "cmd_name (ColorTem _) = ''colorTem''"
| "cmd_name (Scene _) = ''scene''"

record BatchItem = DeviceRef +
  cmd :: ControlCmd

text \<open>
  A template literal is kept as its sequence of literal chunks and interpolated numbers, so
  that no rendering of numbers as text has to be fixed. Interpolated strings are chunks.
\<close>

datatype frag = Lit string | Val rat

type_synonym message = "frag list"

text \<open>A thrown \<^verbatim>\<open>Error\<close>, with its message.\<close>

datatype error = Error message

section \<open>util/limiter.ts: the token bucket\<close>

text \<open>Times are the millisecond readings of \<^verbatim>\<open>Date.now()\<close>.\<close>

record TokenBucketLimiter =
  capacity :: rat
  tokens :: rat
  refillRatePerSec :: rat
  last_ms :: rat

text \<open>The constructor; \<open>now\<close> is the reading of the clock it takes.\<close>

definition new_limiter :: "rat \<Rightarrow> rat \<Rightarrow> TokenBucketLimiter" where
  "new_limiter rps now =
     \<lparr>capacity = max 1 rps, tokens = max 1 rps, refillRatePerSec = rps, last_ms = now\<rparr>"

text \<open>
  One pass through the body of the \<^verbatim>\<open>while (true)\<close> loop of \<^verbatim>\<open>take()\<close>, at
  clock reading \<open>now\<close>: the refilled state, and whether the pass returned (having
  consumed a token) or goes on to wait 50 ms and retry.
\<close>

definition refill :: "rat \<Rightarrow> TokenBucketLimiter \<Rightarrow> TokenBucketLimiter" where
  "refill now s =
     (let elapsed = (now - last_ms s) / 1000
      in s\<lparr>last_ms := now,
            tokens := min (capacity s) (tokens s + elapsed * refillRatePerSec s)\<rparr>)"

definition take_iter :: "rat \<Rightarrow> TokenBucketLimiter \<Rightarrow> TokenBucketLimiter \<times> bool" where
  "take_iter now s =
     (let s' = refill now s
      in if tokens s' \<ge> 1 then (s'\<lparr>tokens := tokens s' - 1\<rparr>, True) else (s', False))"

text \<open>
  \<^verbatim>\<open>take()\<close>. The loop reads the clock once per pass; the list holds the readings
  still to come, so a list that runs out before a token is available is a call that is
  still waiting: \<open>None\<close>. On return the readings not used are handed back.
\<close>

fun take_bucket :: "TokenBucketLimiter \<Rightarrow> rat list \<Rightarrow> (TokenBucketLimiter \<times> rat list) option" where
  "take_bucket s [] = None"
| "take_bucket s (now # clock) =
     (case take_iter now s of
        (s', True) \<Rightarrow> Some (s', clock)
      | (s', False) \<Rightarrow> take_bucket s' clock)"

text \<open>The states the limiter passes through over successive passes of the loop.\<close>

fun run_iters :: "TokenBucketLimiter \<Rightarrow> rat list \<Rightarrow> TokenBucketLimiter" where
  "run_iters s [] = s"
| "run_iters s (now # clock) = run_iters (fst (take_iter now s)) clock"

definition limiter_inv :: "TokenBucketLimiter \<Rightarrow> bool" where
  "limiter_inv s \<longleftrightarrow> 0 \<le> tokens s \<and> tokens s \<le> capacity s \<and> 1 \<le> capacity s"

section \<open>adapters/cloud.ts: transport and protocol translation\<close>

text \<open>
  A JSON value in the \<^verbatim>\<open>value\<close> slot of a capability: a number, a string, or nothing.
\<close>

datatype wire_value = WNum rat | WStr string | WUndefined

text \<open>
  The capability object \<^verbatim>\<open>{type, instance, value}\<close>. A control request carries one as
  written; a state response nests the value as \<^verbatim>\<open>state.value\<close>, which the same
  record stands for.
\<close>

record capability =
  cap_type :: string
  cap_instance :: string
  cap_value :: wire_value

datatype http_method = GET | POST

datatype payload =
    NoPayload
  | StatePayload string string
  | ControlPayload string string capability

text \<open>
  A request as \<^verbatim>\<open>fetch\<close> receives it. The payloads hold \<^verbatim>\<open>sku\<close>, \<^verbatim>\<open>device\<close> and the
  capability; the \<^verbatim>\<open>requestId\<close> and the headers are left out, since nothing the adapter
  does depends on them.
\<close>

record request =
  meth :: http_method
  path :: string
  payload :: payload

record raw_device =
  device :: string
  sku :: string
  deviceName :: "string option"
  raw_capabilities :: "capability list"

text \<open>
  The parsed response body, as far as the adapter reads it: the \<^verbatim>\<open>data\<close> array of the
  device listing, the \<^verbatim>\<open>data.capabilities\<close> array of a state query, or anything else
  (kept as its text), where the adapter's \<^verbatim>\<open>?? []\<close> and \<^verbatim>\<open>|| []\<close> defaults apply.
\<close>

datatype body =
    DevicesBody "raw_device list"
  | StateBody "capability list"
  | OtherBody string

record response =
  ok :: bool
  status :: nat
  body :: body

text \<open>
  The process-wide configuration and the outside world: the allowlist, the dry-run and
  LAN flags, the vendor's answer to each request, and JavaScript's conversion of a string
  to a number (\<^verbatim>\<open>Number(s)\<close>), which is not modelled further. Every request is
  answered: a \<^verbatim>\<open>fetch\<close> that fails without a response, and a body that is not JSON,
  are left out.
\<close>

record env =
  ALLOWLIST :: "string set"
  DRY_RUN :: bool
  lanEnabled :: bool
  fetch :: "request \<Rightarrow> response"
  Number_of_string :: "string \<Rightarrow> jsnum"

text \<open>
  \<^verbatim>\<open>post\<close> and \<^verbatim>\<open>get\<close>: the parsed body of a successful response, or the error
  thrown for any other.
\<close>

definition post :: "env \<Rightarrow> string \<Rightarrow> payload \<Rightarrow> error + body" where
  "post env p pl =
     (let res = fetch env \<lparr>meth = POST, path = p, payload = pl\<rparr>
      in if \<not> ok res
         then Inl (Error [Lit ''Govee API error '', Val (of_nat (status res)),
                          Lit '': Request failed''])
         else Inr (body res))"

definition get :: "env \<Rightarrow> string \<Rightarrow> error + body" where
  "get env p =
     (let res = fetch env \<lparr>meth = GET, path = p, payload = NoPayload\<rparr>
      in if \<not> ok res
         then Inl (Error [Lit ''Govee API error '', Val (of_nat (status res)),
                          Lit '': Request failed''])
         else Inr (body res))"

text \<open>
  An adapter call yields what it returned or threw, and the requests it sent, in order.
\<close>

type_synonym 'a io = "(error + 'a) \<times> request list"

definition cloud_listDevices :: "env \<Rightarrow> DeviceInfo list io" where
  "cloud_listDevices env =
     (case get env ''/user/devices'' of
        Inl e \<Rightarrow> Inl e
      | Inr out \<Rightarrow>
          Inr (map (\<lambda>d. \<lparr>deviceId = device d, model = sku d, name = deviceName d,
                         capabilities = map cap_type (raw_capabilities d)\<rparr>)
                 (case out of DevicesBody devices \<Rightarrow> devices | _ \<Rightarrow> [])),
      [\<lparr>meth = GET, path = ''/user/devices'', payload = NoPayload\<rparr>])"

text \<open>\<^verbatim>\<open>Number(v)\<close>, and the conversions around the 32-bit operators.\<close>

fun Number_js :: "env \<Rightarrow> wire_value \<Rightarrow> jsnum" where
  "Number_js env (WNum x) = Finite x"
| "Number_js env (WStr s) = Number_of_string env s"
| "Number_js env WUndefined = NaN"

definition ToInt32 :: "jsnum \<Rightarrow> 32 word" where
  "ToInt32 n =
     (case n of NaN \<Rightarrow> 0
      | Finite x \<Rightarrow> word_of_int (if 0 \<le> x then \<lfloor>x\<rfloor> else \<lceil>x\<rceil>))"

definition of_int32 :: "32 word \<Rightarrow> rat" where
  "of_int32 w = of_int (sint w)"

text \<open>
  The body of the loop over the capabilities of a state response: four independent tests,
  each writing one field.
\<close>

definition getState_cap :: "env \<Rightarrow> State \<Rightarrow> capability \<Rightarrow> State" where
  "getState_cap env st c =
     (let st1 = (if cap_type c = ''devices.capabilities.on_off''
                 then st\<lparr>power_state := Some (if cap_value c = WNum 1 then On else Off)\<rparr>
                 else st);
          st2 = (if cap_type c = ''devices.capabilities.range'' \<and> cap_instance c = ''brightness''
                 then st1\<lparr>brightness := Some (Number_js env (cap_value c))\<rparr>
                 else st1);
          st3 = (if cap_type c = ''devices.capabilities.color_setting''
                      \<and> cap_instance c = ''colorRgb''
                 then (let rgb = ToInt32 (Number_js env (cap_value c))
                       in st2\<lparr>color := Some
                            \<lparr>r = of_int32 (signed_drop_bit 16 rgb AND 255),
                             g = of_int32 (signed_drop_bit 8 rgb AND 255),
                             b = of_int32 (rgb AND 255)\<rparr>\<rparr>)
                 else st2)
      in if cap_type c = ''devices.capabilities.color_setting''
              \<and> cap_instance c = ''colorTemperatureK''
         then st3\<lparr>colorTem := Some (Number_js env (cap_value c))\<rparr>
         else st3)"

definition empty_State :: State where
  "empty_State =
     \<lparr>power_state = None, brightness = None, color = None, colorTem = None, scene = None\<rparr>"

definition getState_caps :: "env \<Rightarrow> capability list \<Rightarrow> State" where
  "getState_caps env caps = foldl (getState_cap env) empty_State caps"

definition cloud_getState :: "env \<Rightarrow> DeviceRef \<Rightarrow> State io" where
  "cloud_getState env ref =
     (case post env ''/device/state'' (StatePayload (model ref) (deviceId ref)) of
        Inl e \<Rightarrow> Inl e
      | Inr out \<Rightarrow>
          Inr (getState_caps env (case out of StateBody caps \<Rightarrow> caps | _ \<Rightarrow> [])),
      [\<lparr>meth = POST, path = ''/device/state'',
        payload = StatePayload (model ref) (deviceId ref)\<rparr>])"

text \<open>
  The \<^verbatim>\<open>switch (cmd.name)\<close> of \<^verbatim>\<open>control\<close>. The datatype is exhaustive, so the
  \<^verbatim>\<open>default\<close> branch has no counterpart. The operands of \<^verbatim>\<open><<\<close> and \<^verbatim>\<open>|\<close> are
  converted to 32-bit integers, and so is the result.
\<close>

fun control_capability :: "ControlCmd \<Rightarrow> capability" where
  "control_capability (Turn v) =
     \<lparr>cap_type = ''devices.capabilities.on_off'', cap_instance = ''powerSwitch'',
      cap_value = WNum (if v = On then 1 else 0)\<rparr>"
| "control_capability (Brightness v) =
     \<lparr>cap_type = ''devices.capabilities.range'', cap_instance = ''brightness'',
      cap_value = WNum v\<rparr>"
| "control_capability (Color v) =
     \<lparr>cap_type = ''devices.capabilities.color_setting'', cap_instance = ''colorRgb'',
      cap_value = WNum (of_int32
        (push_bit 16 (ToInt32 (Finite (r v))) OR push_bit 8 (ToInt32 (Finite (g v)))
           OR ToInt32 (Finite (b v))))\<rparr>"
| "control_capability (ColorTem v) =
     \<lparr>cap_type = ''devices.capabilities.color_setting'', cap_instance = ''colorTemperatureK'',
      cap_value = WNum v\<rparr>"
| "control_capability (Scene v) =
     \<lparr>cap_type = ''devices.capabilities.dynamic_scene'', cap_instance = ''lightScene'',
      cap_value = WStr v\<rparr>"

text \<open>
  \<^verbatim>\<open>control\<close>: the dry-run test comes first (its \<^verbatim>\<open>console.log\<close> is left out), then
  the request.
\<close>

definition cloud_control :: "env \<Rightarrow> DeviceRef \<Rightarrow> ControlCmd \<Rightarrow> unit io" where
  "cloud_control env ref c =
     (if DRY_RUN env then (Inr (), [])
      else (let pl = ControlPayload (model ref) (deviceId ref) (control_capability c)
            in (case post env ''/device/control'' pl of Inl e \<Rightarrow> Inl e | Inr _ \<Rightarrow> Inr (),
                [\<lparr>meth = POST, path = ''/device/control'', payload = pl\<rparr>])))"

text \<open>
  The sequential loop of \<^verbatim>\<open>batch\<close>: a throwing \<^verbatim>\<open>control\<close> ends it. The 60 ms pauses
  are not modelled.
\<close>

fun cloud_batch_loop :: "env \<Rightarrow> BatchItem list \<Rightarrow> unit io" where
  "cloud_batch_loop env [] = (Inr (), [])"
| "cloud_batch_loop env (it # items) =
     (case cloud_control env \<lparr>deviceId = deviceId it, model = model it\<rparr> (cmd it) of
        (Inl e, rqs) \<Rightarrow> (Inl e, rqs)
      | (Inr _, rqs) \<Rightarrow>
          (case cloud_batch_loop env items of (res, rqs') \<Rightarrow> (res, rqs @ rqs')))"

definition cloud_batch :: "env \<Rightarrow> BatchItem list \<Rightarrow> unit io" where
  "cloud_batch env items = (if DRY_RUN env then (Inr (), []) else cloud_batch_loop env items)"

section \<open>adapters/lan.ts: the placeholder\<close>

definition lan_getState :: "env \<Rightarrow> DeviceRef \<Rightarrow> State io" where
  "lan_getState env ref = (Inl (Error [Lit ''LAN getState not implemented'']), [])"

definition lan_control :: "env \<Rightarrow> DeviceRef \<Rightarrow> ControlCmd \<Rightarrow> unit io" where
  "lan_control env ref c =
     (if \<not> lanEnabled env then (Inl (Error [Lit ''LAN disabled'']), [])
      else (Inl (Error [Lit ''LAN control not implemented'']), []))"

section \<open>server.ts: the gateway\<close>

definition isAllowed :: "env \<Rightarrow> string \<Rightarrow> bool" where
  "isAllowed env did \<longleftrightarrow> ALLOWLIST env = {} \<or> did \<in> ALLOWLIST env"

datatype adapter = Lan | Cloud

definition pickAdapter :: "env \<Rightarrow> string \<Rightarrow> adapter" where
  "pickAdapter env did = (if lanEnabled env then Lan else Cloud)"

fun adapter_getState :: "env \<Rightarrow> adapter \<Rightarrow> DeviceRef \<Rightarrow> State io" where
  "adapter_getState env Lan ref = lan_getState env ref"
| "adapter_getState env Cloud ref = cloud_getState env ref"

fun adapter_control :: "env \<Rightarrow> adapter \<Rightarrow> DeviceRef \<Rightarrow> ControlCmd \<Rightarrow> unit io" where
  "adapter_control env Lan ref c = lan_control env ref c"
| "adapter_control env Cloud ref c = cloud_control env ref c"

text \<open>
  What a handler leaves behind: a completed \<^verbatim>\<open>limiter.take()\<close>, a request sent, or, for
  the batch, the requests of the device groups, one list per group in the group's order.
  The groups run concurrently, so no order is fixed between requests of different lists.
  The waits (retry pause, coalescing window) are not modelled.
\<close>

datatype event = Take | Http request | Parallel "request list list"

fun http_requests :: "event list \<Rightarrow> request list" where
  "http_requests [] = []"
| "http_requests (Take # es) = http_requests es"
| "http_requests (Http rq # es) = rq # http_requests es"
| "http_requests (Parallel rqss # es) = concat rqss @ http_requests es"

text \<open>
  The text of a result. \<^verbatim>\<open>JSON.stringify\<close> of a value is kept as the value.
\<close>

datatype content = Text message | DevicesJson "DeviceInfo list" | StateJson State

record outcome =
  result :: "error + content"
  limiter :: TokenBucketLimiter
  events :: "event list"

text \<open>
  Every handler is a function of the configuration, the limiter as it stands, and the
  clock readings to come; \<open>None\<close> is a handler still waiting in \<^verbatim>\<open>take()\<close>.
\<close>

definition list_devices :: "env \<Rightarrow> TokenBucketLimiter \<Rightarrow> rat list \<Rightarrow> outcome option" where
  "list_devices env bucket clock =
     (case take_bucket bucket clock of
        None \<Rightarrow> None
      | Some (bucket', _) \<Rightarrow>
          (case cloud_listDevices env of
             (Inl e, rqs) \<Rightarrow>
               Some \<lparr>result = Inl e, limiter = bucket', events = Take # map Http rqs\<rparr>
           | (Inr list, rqs) \<Rightarrow>
               Some \<lparr>result = Inr (DevicesJson (filter (\<lambda>d. isAllowed env (deviceId d)) list)),
                     limiter = bucket', events = Take # map Http rqs\<rparr>))"

definition get_state ::
  "env \<Rightarrow> TokenBucketLimiter \<Rightarrow> rat list \<Rightarrow> string \<Rightarrow> string \<Rightarrow> outcome option" where
  "get_state env bucket clock did mdl =
     (if \<not> isAllowed env did
      then Some \<lparr>result = Inl (Error [Lit ''Device not allowed'']), limiter = bucket, events = []\<rparr>
      else (case take_bucket bucket clock of
        None \<Rightarrow> None
      | Some (bucket', _) \<Rightarrow>
          (case adapter_getState env (pickAdapter env did) \<lparr>deviceId = did, model = mdl\<rparr> of
             (Inl e, rqs) \<Rightarrow>
               Some \<lparr>result = Inl e, limiter = bucket', events = Take # map Http rqs\<rparr>
           | (Inr st, rqs) \<Rightarrow>
               Some \<lparr>result = Inr (StateJson st), limiter = bucket',
                     events = Take # map Http rqs\<rparr>)))"

text \<open>
  The five \<^verbatim>\<open>set_*\<close> handlers have one body: allowlist test, \<^verbatim>\<open>take()\<close>, adapter choice,
  \<^verbatim>\<open>control\<close>, success text. They differ in the command built and the text returned.
\<close>

definition control_op ::
  "env \<Rightarrow> TokenBucketLimiter \<Rightarrow> rat list \<Rightarrow> string \<Rightarrow> string \<Rightarrow> ControlCmd \<Rightarrow> message
     \<Rightarrow> outcome option" where
  "control_op env bucket clock did mdl c msg =
     (if \<not> isAllowed env did
      then Some \<lparr>result = Inl (Error [Lit ''Device not allowed'']), limiter = bucket, events = []\<rparr>
      else (case take_bucket bucket clock of
        None \<Rightarrow> None
      | Some (bucket', _) \<Rightarrow>
          (case adapter_control env (pickAdapter env did) \<lparr>deviceId = did, model = mdl\<rparr> c of
             (Inl e, rqs) \<Rightarrow>
               Some \<lparr>result = Inl e, limiter = bucket', events = Take # map Http rqs\<rparr>
           | (Inr _, rqs) \<Rightarrow>
               Some \<lparr>result = Inr (Text msg), limiter = bucket',
                     events = Take # map Http rqs\<rparr>)))"

text \<open>\<^verbatim>\<open>Math.round\<close>: the nearest integer, a tie going up.\<close>

definition Math_round :: "rat \<Rightarrow> rat" where
  "Math_round x = of_int \<lfloor>x + 1 / 2\<rfloor>"

definition set_power ::
  "env \<Rightarrow> TokenBucketLimiter \<Rightarrow> rat list \<Rightarrow> string \<Rightarrow> string \<Rightarrow> bool \<Rightarrow> outcome option" where
  "set_power env bucket clock did mdl on =
     control_op env bucket clock did mdl (Turn (if on then On else Off))
       [Lit ''Power '', Lit (if on then ''on'' else ''off''), Lit '' sent.'']"

definition set_brightness ::
  "env \<Rightarrow> TokenBucketLimiter \<Rightarrow> rat list \<Rightarrow> string \<Rightarrow> string \<Rightarrow> rat \<Rightarrow> outcome option" where
  "set_brightness env bucket clock did mdl percent =
     control_op env bucket clock did mdl (Brightness (Math_round percent))
       [Lit ''Brightness set to '', Val (Math_round percent), Lit ''%.'']"

definition set_color ::
  "env \<Rightarrow> TokenBucketLimiter \<Rightarrow> rat list \<Rightarrow> string \<Rightarrow> string \<Rightarrow> rat \<Rightarrow> rat \<Rightarrow> rat
     \<Rightarrow> outcome option" where
  "set_color env bucket clock did mdl cr cg cb =
     control_op env bucket clock did mdl (Color \<lparr>r = cr, g = cg, b = cb\<rparr>)
       [Lit ''Color set to rgb('', Val cr, Lit '','', Val cg, Lit '','', Val cb, Lit '').'']"

definition set_color_temp ::
  "env \<Rightarrow> TokenBucketLimiter \<Rightarrow> rat list \<Rightarrow> string \<Rightarrow> string \<Rightarrow> rat \<Rightarrow> outcome option" where
  "set_color_temp env bucket clock did mdl kelvin =
     control_op env bucket clock did mdl (ColorTem (Math_round kelvin))
       [Lit ''Color temp set to '', Val (Math_round kelvin), Lit ''K.'']"

definition set_scene ::
  "env \<Rightarrow> TokenBucketLimiter \<Rightarrow> rat list \<Rightarrow> string \<Rightarrow> string \<Rightarrow> string \<Rightarrow> outcome option" where
  "set_scene env bucket clock did mdl sc =
     control_op env bucket clock did mdl (Scene sc)
       [Lit ''Scene set to '', Lit sc, Lit ''.'']"

subsection \<open>The batch\<close>

text \<open>
  A JavaScript \<^verbatim>\<open>Map\<close> keeps its keys in the order of their first insertion, and
  \<^verbatim>\<open>set\<close> on a key already present replaces the value where it stands.
\<close>

fun Map_set :: "('k \<times> 'v) list \<Rightarrow> 'k \<Rightarrow> 'v \<Rightarrow> ('k \<times> 'v) list" where
  "Map_set [] k v = [(k, v)]"
| "Map_set ((k', v') # m) k v =
     (if k' = k then (k, v) # m else (k', v') # Map_set m k v)"

definition key :: "BatchItem \<Rightarrow> string" where
  "key it = deviceId it @ '':'' @ model it @ '':'' @ cmd_name (cmd it)"

definition coalesce :: "BatchItem list \<Rightarrow> BatchItem list" where
  "coalesce allowed = map snd (foldl (\<lambda>m it. Map_set m (key it) it) [] allowed)"

definition byDevice :: "BatchItem list \<Rightarrow> (string \<times> BatchItem list) list" where
  "byDevice deduped =
     foldl (\<lambda>m it.
        Map_set m (deviceId it)
          ((case map_of m (deviceId it) of None \<Rightarrow> [] | Some arr \<Rightarrow> arr) @ [it]))
       [] deduped"

text \<open>The task of one device group: its commands in order, up to the first that throws.\<close>

fun control_each :: "env \<Rightarrow> adapter \<Rightarrow> BatchItem list \<Rightarrow> unit io" where
  "control_each env ad [] = (Inr (), [])"
| "control_each env ad (it # cmds) =
     (case adapter_control env ad \<lparr>deviceId = deviceId it, model = model it\<rparr> (cmd it) of
        (Inl e, rqs) \<Rightarrow> (Inl e, rqs)
      | (Inr _, rqs) \<Rightarrow>
          (case control_each env ad cmds of (res, rqs') \<Rightarrow> (res, rqs @ rqs')))"

definition group_task :: "env \<Rightarrow> string \<times> BatchItem list \<Rightarrow> unit io" where
  "group_task env grp = control_each env (pickAdapter env (fst grp)) (snd grp)"

text \<open>
  \<^verbatim>\<open>Promise.all\<close> rejects with the rejection that comes first in time, which the network
  decides; the model reports the first failed group in group order. Every task runs to
  its own end either way.
\<close>

fun Promise_all :: "(error + unit) list \<Rightarrow> error + unit" where
  "Promise_all [] = Inr ()"
| "Promise_all (Inl e # rs) = Inl e"
| "Promise_all (Inr _ # rs) = Promise_all rs"

definition batch ::
  "env \<Rightarrow> TokenBucketLimiter \<Rightarrow> rat list \<Rightarrow> BatchItem list \<Rightarrow> outcome option" where
  "batch env bucket clock items =
     (let allowed = filter (\<lambda>i. isAllowed env (deviceId i)) items
      in if length allowed = 0
         then Some \<lparr>result = Inl (Error [Lit ''No allowed items'']), limiter = bucket, events = []\<rparr>
         else (let deduped = coalesce allowed
               in (case take_bucket bucket clock of
                     None \<Rightarrow> None
                   | Some (bucket', _) \<Rightarrow>
                       (let groups = byDevice deduped;
                            tasks = map (group_task env) groups
                        in Some
                          \<lparr>result =
                             (case Promise_all (map fst tasks) of
                                Inl e \<Rightarrow> Inl e
                              | Inr _ \<Rightarrow>
                                  Inr (Text [Lit ''Applied '', Val (of_nat (length deduped)),
                                             Lit '' command(s) across '',
                                             Val (of_nat (length groups)),
                                             Lit '' device(s).''])),
                           limiter = bucket',
                           events = [Take, Parallel (map snd tasks)]\<rparr>))))"

subsection \<open>The two servers\<close>

datatype tool_call =
    List_devices
  | Get_state string string
  | Set_power string string bool
  | Set_brightness string string rat
  | Set_color string string rat rat rat
  | Set_color_temp string string rat
  | Set_scene string string string
  | Batch "BatchItem list"
  | Unknown string

text \<open>The \<^verbatim>\<open>switch (name)\<close> over the tools, which both servers share case by case.\<close>

fun handler :: "env \<Rightarrow> TokenBucketLimiter \<Rightarrow> rat list \<Rightarrow> tool_call \<Rightarrow> outcome option" where
  "handler env bucket clock List_devices = list_devices env bucket clock"
| "handler env bucket clock (Get_state did mdl) = get_state env bucket clock did mdl"
| "handler env bucket clock (Set_power did mdl on) = set_power env bucket clock did mdl on"
| "handler env bucket clock (Set_brightness did mdl percent) =
     set_brightness env bucket clock did mdl percent"
| "handler env bucket clock (Set_color did mdl cr cg cb) = set_color env bucket clock did mdl cr cg cb"
| "handler env bucket clock (Set_color_temp did mdl kelvin) =
     set_color_temp env bucket clock did mdl kelvin"
| "handler env bucket clock (Set_scene did mdl sc) = set_scene env bucket clock did mdl sc"
| "handler env bucket clock (Batch items) = batch env bucket clock items"
| "handler env bucket clock (Unknown nm) =
     Some \<lparr>result = Inl (Error [Lit ''Unknown tool: '', Lit nm]), limiter = bucket, events = []\<rparr>"

text \<open>
  The first server answers \<^verbatim>\<open>tools/call\<close> itself (tools \<^verbatim>\<open>govee.list_devices\<close>,
  \<^verbatim>\<open>govee.set_brightness\<close>, ...). It registers its callback under the schema
  \<^verbatim>\<open>z.object({ method: z.literal("tools/call") })\<close>, and the callback is given the
  request as that schema parses it. An object schema keeps the keys it declares and drops
  the others: \<^verbatim>\<open>method\<close> stays, \<^verbatim>\<open>params\<close> goes. (Requests reach the callback by
  their method, so the literal always matches.)
\<close>

record rpc_request =
  rpc_method :: string
  rpc_params :: "tool_call option"


text \<open>
  The callback. Its first statement, before the \<^verbatim>\<open>try\<close>, destructures
  \<^verbatim>\<open>request.params\<close>, which throws a \<^verbatim>\<open>TypeError\<close> when \<^verbatim>\<open>params\<close> is absent.
  Otherwise the \<^verbatim>\<open>switch\<close> runs inside the \<^verbatim>\<open>try\<close>, whose \<^verbatim>\<open>catch\<close> turns a
  thrown error into an error result.
\<close>

datatype reply = Reply content | ErrorReply message

datatype 'a settled = TypeError_thrown | Returned 'a

definition tools_call_callback ::
  "env \<Rightarrow> TokenBucketLimiter \<Rightarrow> rat list \<Rightarrow> rpc_request
     \<Rightarrow> (reply \<times> TokenBucketLimiter \<times> event list) option settled" where
  "tools_call_callback env bucket clock request =
     (case rpc_params request of
        None \<Rightarrow> TypeError_thrown
      | Some c \<Rightarrow>
          Returned
            (map_option
               (\<lambda>out. (case result out of
                          Inl (Error m) \<Rightarrow> ErrorReply (Lit ''Error: '' # m)
                        | Inr ct \<Rightarrow> Reply ct,
                        limiter out, events out))
               (handler env bucket clock c)))"


text \<open>
  The second server registers each tool (\<^verbatim>\<open>govee_list_devices\<close>,
  \<^verbatim>\<open>govee_set_brightness\<close>, ...) with a zod input schema. The schemas, as declared:
\<close>

fun cmd_schema :: "ControlCmd \<Rightarrow> bool" where
  "cmd_schema (Turn v) \<longleftrightarrow> True"
| "cmd_schema (Brightness v) \<longleftrightarrow> 0 \<le> v \<and> v \<le> 100"
| "cmd_schema (Color v) \<longleftrightarrow>
     0 \<le> r v \<and> r v \<le> 255 \<and> 0 \<le> g v \<and> g v \<le> 255 \<and> 0 \<le> b v \<and> b v \<le> 255"
| "cmd_schema (ColorTem v) \<longleftrightarrow> 1000 \<le> v \<and> v \<le> 10000"
| "cmd_schema (Scene v) \<longleftrightarrow> True"

fun inputSchema :: "tool_call \<Rightarrow> bool" where
  "inputSchema (Set_brightness did mdl percent) \<longleftrightarrow> 0 \<le> percent \<and> percent \<le> 100"
| "inputSchema (Set_color did mdl cr cg cb) \<longleftrightarrow>
     0 \<le> cr \<and> cr \<le> 255 \<and> 0 \<le> cg \<and> cg \<le> 255 \<and> 0 \<le> cb \<and> cb \<le> 255"
| "inputSchema (Set_color_temp did mdl kelvin) \<longleftrightarrow> 1000 \<le> kelvin \<and> kelvin \<le> 10000"
| "inputSchema (Batch items) \<longleftrightarrow> 1 \<le> length items \<and> list_all (\<lambda>it. cmd_schema (cmd it)) items"
| "inputSchema (Unknown nm) \<longleftrightarrow> False"
| "inputSchema _ \<longleftrightarrow> True"

text \<open>
  A registered tool's callback is called with arguments that passed its schema; a call
  whose arguments do not pass (or that names no registered tool) is turned down by the
  MCP library before the callback runs.
\<close>

datatype 'a checked = Rejected | Accepted 'a

definition registered_tool ::
  "env \<Rightarrow> TokenBucketLimiter \<Rightarrow> rat list \<Rightarrow> tool_call \<Rightarrow> outcome option checked" where
  "registered_tool env bucket clock c =
     (if inputSchema c then Accepted (handler env bucket clock c) else Rejected)"

section \<open>Notions used to state the properties\<close>

text \<open>
  The coalescing rule in the words of the specification: the distinct keys in the order in
  which each first appears, and for each key the last item that carries it.
\<close>

fun first_appearance :: "'a list \<Rightarrow> 'a list" where
  "first_appearance [] = []"
| "first_appearance (k # ks) = k # filter (\<lambda>k'. k' \<noteq> k) (first_appearance ks)"

definition last_occurrence :: "('a \<Rightarrow> 'k) \<Rightarrow> 'a list \<Rightarrow> 'k \<Rightarrow> 'a" where
  "last_occurrence f xs k = last (filter (\<lambda>x. f x = k) xs)"

definition dedup_spec :: "('a \<Rightarrow> 'k) \<Rightarrow> 'a list \<Rightarrow> 'a list" where
  "dedup_spec f xs = map (last_occurrence f xs) (first_appearance (map f xs))"

text \<open>The items that are the first to carry their key.\<close>

fun first_items :: "('a \<Rightarrow> 'k) \<Rightarrow> 'a list \<Rightarrow> 'a list" where
  "first_items f [] = []"
| "first_items f (x # xs) = x # filter (\<lambda>y. f y \<noteq> f x) (first_items f xs)"

text \<open>The composite key of the specification, as a triple.\<close>

definition composite_key :: "BatchItem \<Rightarrow> string \<times> string \<times> string" where
  "composite_key it = (deviceId it, model it, cmd_name (cmd it))"

text \<open>The bucket after a run of clock readings that only refill it.\<close>

definition refills :: "TokenBucketLimiter \<Rightarrow> rat list \<Rightarrow> TokenBucketLimiter" where
  "refills s clock = foldl (\<lambda>s now. refill now s) s clock"

definition takes :: "event list \<Rightarrow> nat" where
  "takes es = length (filter (\<lambda>e. e = Take) es)"

text \<open>
  A configuration to evaluate on: no allowlist, no dry run, no LAN, a vendor that answers
  every request with 200 and the body \<^verbatim>\<open>{}\<close>; and one whose vendor answers 500.
\<close>

definition env_ok :: env where
  "env_ok =
     \<lparr>ALLOWLIST = {}, DRY_RUN = False, lanEnabled = False,
      fetch = (\<lambda>rq. \<lparr>ok = True, status = 200, body = OtherBody ''{}''\<rparr>),
      Number_of_string = (\<lambda>s. NaN)\<rparr>"

definition env_down :: env where
  "env_down =
     env_ok\<lparr>fetch := (\<lambda>rq. \<lparr>ok = False, status = 500, body = OtherBody ''secret''\<rparr>)\<rparr>"

text \<open>A batch of four items for two devices, two of them with the same key.\<close>

definition example_items :: "BatchItem list" where
  "example_items =
     [\<lparr>deviceId = ''A'', model = ''H6104'', cmd = Brightness 10\<rparr>,
      \<lparr>deviceId = ''B'', model = ''H6104'', cmd = Turn On\<rparr>,
      \<lparr>deviceId = ''A'', model = ''H6104'', cmd = Brightness 90\<rparr>,
      \<lparr>deviceId = ''A'', model = ''H6104'', cmd = Color \<lparr>r = 255, g = 0, b = 0\<rparr>\<rparr>]"

section \<open>Properties\<close>

subsection \<open>The take loop\<close>

lemma new_limiter_inv: "limiter_inv (new_limiter rps now)"
  by (simp add: limiter_inv_def new_limiter_def)

lemma take_iter_inv:
  assumes "limiter_inv s" and "0 < refillRatePerSec s" and "last_ms s \<le> now"
  shows "limiter_inv (fst (take_iter now s))"
proof -
  have "0 \<le> (now - last_ms s) / 1000 * refillRatePerSec s"
    using assms by simp
  then show ?thesis
    using assms(1) by (auto simp: limiter_inv_def take_iter_def refill_def Let_def)
qed

lemma take_iter_rate: "refillRatePerSec (fst (take_iter now s)) = refillRatePerSec s"
  by (simp add: take_iter_def refill_def Let_def)

lemma take_iter_last: "last_ms (fst (take_iter now s)) = now"
  by (simp add: take_iter_def refill_def Let_def)

lemma run_iters_inv:
  assumes "limiter_inv s" and "0 < refillRatePerSec s" and "sorted (last_ms s # clock)"
  shows "limiter_inv (run_iters s clock)"
  using assms
proof (induction clock arbitrary: s)
  case Nil
  then show ?case by simp
next
  case (Cons now clock)
  have "limiter_inv (fst (take_iter now s))"
    using Cons.prems by (intro take_iter_inv) simp_all
  moreover have "sorted (last_ms (fst (take_iter now s)) # clock)"
    using Cons.prems(3) by (simp add: take_iter_last)
  ultimately show ?case
    using Cons.IH [of "fst (take_iter now s)"] Cons.prems(2) by (simp add: take_iter_rate)
qed

lemma take_bucket_run_iters:
  "take_bucket s clock = Some (s', rest) \<Longrightarrow>
     \<exists>used. clock = used @ rest \<and> used \<noteq> [] \<and> s' = run_iters s used"
proof (induction clock arbitrary: s)
  case Nil
  then show ?case by simp
next
  case (Cons now clock)
  show ?case
  proof (cases "snd (take_iter now s)")
    case True
    with Cons.prems have "s' = fst (take_iter now s)" "rest = clock"
      by (auto split: prod.splits)
    then have "now # clock = [now] @ rest \<and> [now] \<noteq> [] \<and> s' = run_iters s [now]"
      by simp
    then show ?thesis by blast
  next
    case False
    with Cons.prems have "take_bucket (fst (take_iter now s)) clock = Some (s', rest)"
      by (auto split: prod.splits)
    from Cons.IH [OF this] obtain used
      where "clock = used @ rest" "s' = run_iters (fst (take_iter now s)) used"
      by blast
    then have "now # clock = (now # used) @ rest \<and> now # used \<noteq> [] \<and> s' = run_iters s (now # used)"
      by simp
    then show ?thesis by blast
  qed
qed

lemma take_bucket_returns:
  assumes "limiter_inv s" and "0 < refillRatePerSec s" and "sorted (last_ms s # clock)"
    and "clock \<noteq> []"
    and "1 \<le> tokens s + (last clock - last_ms s) / 1000 * refillRatePerSec s"
  shows "\<exists>s' rest. take_bucket s clock = Some (s', rest)"
  using assms
proof (induction clock arbitrary: s)
  case Nil
  then show ?case by simp
next
  case (Cons now clock)
  let ?q = "refill now s"
  show ?case
  proof (cases "1 \<le> tokens ?q")
    case True
    then show ?thesis by (simp add: take_iter_def Let_def)
  next
    case False
    have step: "take_bucket s (now # clock) = take_bucket ?q clock"
      using False by (simp add: take_iter_def Let_def)
    have cap: "1 \<le> capacity s"
      using Cons.prems(1) by (simp add: limiter_inv_def)
    have tq: "tokens ?q = tokens s + (now - last_ms s) / 1000 * refillRatePerSec s"
      using False cap by (simp add: refill_def Let_def min_def split: if_splits)
    have ne: "clock \<noteq> []"
      using False Cons.prems(5) tq by auto
    have "limiter_inv ?q"
      using take_iter_inv [of s now] Cons.prems(1-3) False by (simp add: take_iter_def Let_def)
    moreover have "0 < refillRatePerSec ?q"
      using Cons.prems(2) by (simp add: refill_def Let_def)
    moreover have "sorted (last_ms ?q # clock)"
      using Cons.prems(3) by (simp add: refill_def Let_def)
    moreover have "1 \<le> tokens ?q + (last clock - last_ms ?q) / 1000 * refillRatePerSec ?q"
    proof -
      have "tokens ?q + (last clock - now) / 1000 * refillRatePerSec s
            = tokens s + (last clock - last_ms s) / 1000 * refillRatePerSec s"
        unfolding tq by (simp add: field_simps)
      then show ?thesis
        using Cons.prems(5) ne by (simp add: refill_def Let_def)
    qed
    ultimately show ?thesis
      using Cons.IH [of ?q] ne step by simp
  qed
qed

lemma refills_Cons: "refills s (now # clock) = refills (refill now s) clock"
  by (simp add: refills_def)

lemma take_bucket_consumes_one:
  "take_bucket s clock = Some (s', rest) \<Longrightarrow>
     \<exists>used. clock = used @ rest \<and> used \<noteq> [] \<and> 1 \<le> tokens (refills s used)
       \<and> s' = (refills s used)\<lparr>tokens := tokens (refills s used) - 1\<rparr>"
proof (induction clock arbitrary: s)
  case Nil
  then show ?case by simp
next
  case (Cons now clock)
  let ?q = "refill now s"
  show ?case
  proof (cases "1 \<le> tokens ?q")
    case True
    with Cons.prems have "s' = ?q\<lparr>tokens := tokens ?q - 1\<rparr>" "rest = clock"
      by (simp_all add: take_iter_def Let_def)
    with True have "now # clock = [now] @ rest \<and> [now] \<noteq> [] \<and> 1 \<le> tokens (refills s [now])
       \<and> s' = (refills s [now])\<lparr>tokens := tokens (refills s [now]) - 1\<rparr>"
      by (simp add: refills_def)
    then show ?thesis by blast
  next
    case False
    with Cons.prems have "take_bucket ?q clock = Some (s', rest)"
      by (simp add: take_iter_def Let_def)
    from Cons.IH [OF this] obtain used
      where "clock = used @ rest" "1 \<le> tokens (refills ?q used)"
        "s' = (refills ?q used)\<lparr>tokens := tokens (refills ?q used) - 1\<rparr>"
      by blast
    then have "now # clock = (now # used) @ rest \<and> now # used \<noteq> []
       \<and> 1 \<le> tokens (refills s (now # used))
       \<and> s' = (refills s (now # used))\<lparr>tokens := tokens (refills s (now # used)) - 1\<rparr>"
      by (simp add: refills_Cons)
    then show ?thesis by blast
  qed
qed

lemma take_bucket_full:
  "take_bucket (new_limiter 5 0) [0]
     = Some (\<lparr>capacity = 5, tokens = 4, refillRatePerSec = 5, last_ms = 0\<rparr>, [])"
  by (simp add: new_limiter_def take_iter_def refill_def Let_def)

subsection \<open>The token bucket stays within its bounds\<close>

text \<open>
  Claim C10. The limiter keeps \<open>0 \<le> tokens \<le> capacity\<close> and \<open>1 \<le> capacity\<close>: at
  construction, after every pass of the loop of \<^verbatim>\<open>take()\<close> (the state after the first
  \<open>n\<close> passes, for every \<open>n\<close>), and so in the state any \<^verbatim>\<open>take()\<close> returns with, for
  every \<open>rps > 0\<close>, provided no clock reading is earlier than the one before it.
\<close>

theorem limiter_invariant:
  assumes "0 < rps" and "sorted (t0 # clock)"
  shows "limiter_inv (new_limiter rps t0)
       \<and> (\<forall>n. limiter_inv (run_iters (new_limiter rps t0) (take n clock)))
       \<and> (\<forall>s' rest. take_bucket (new_limiter rps t0) clock = Some (s', rest) \<longrightarrow> limiter_inv s')"
proof -
  let ?s0 = "new_limiter rps t0"
  have rate: "0 < refillRatePerSec ?s0" and l: "last_ms ?s0 = t0"
    using assms(1) by (simp_all add: new_limiter_def)
  have pre: "limiter_inv (run_iters ?s0 used)" if "sorted (t0 # used)" for used
    using new_limiter_inv rate that by (intro run_iters_inv) (simp_all add: l)
  have "sorted (t0 # take n clock)" for n
    using assms(2) by (auto simp: sorted_wrt_take dest: in_set_takeD)
  then have a: "\<forall>n. limiter_inv (run_iters ?s0 (take n clock))"
    using pre by blast
  have b: "limiter_inv s'" if "take_bucket ?s0 clock = Some (s', rest)" for s' rest
  proof -
    from take_bucket_run_iters [OF that] obtain used
      where u: "clock = used @ rest" "s' = run_iters ?s0 used" by blast
    have "sorted (t0 # used)"
      using assms(2) u(1) by (auto simp: sorted_append)
    then show ?thesis using pre u(2) by simp
  qed
  show ?thesis using new_limiter_inv a b by blast
qed

text \<open>The theorem at five requests per second and three passes of the loop.\<close>

theorem limiter_invariant_witness:
  "0 < (5::rat) \<and> sorted [0::rat, 0, 100, 300]
   \<and> limiter_inv (new_limiter 5 0)
   \<and> limiter_inv (run_iters (new_limiter 5 0) [0, 100, 300])
   \<and> tokens (run_iters (new_limiter 5 0) [0, 100, 300]) = 7 / 2
   \<and> take_bucket (new_limiter 5 0) [0, 100, 300]
       = Some (\<lparr>capacity = 5, tokens = 4, refillRatePerSec = 5, last_ms = 0\<rparr>, [100, 300])
   \<and> limiter_inv \<lparr>capacity = 5, tokens = 4, refillRatePerSec = 5, last_ms = 0\<rparr>"
proof -
  have h: "0 < (5::rat)" "sorted [0::rat, 0, 100, 300]"
    by simp_all
  note inv = limiter_invariant [OF h]
  have tk: "take_bucket (new_limiter 5 0) [0, 100, 300]
      = Some (\<lparr>capacity = 5, tokens = 4, refillRatePerSec = 5, last_ms = 0\<rparr>, [100, 300])"
    by (simp add: new_limiter_def take_iter_def refill_def Let_def)
  have "limiter_inv (run_iters (new_limiter 5 0) (take 3 [0, 100, 300]))"
    using inv by blast
  then have a: "limiter_inv (run_iters (new_limiter 5 0) [0, 100, 300])"
    by simp
  have b: "tokens (run_iters (new_limiter 5 0) [0, 100, 300]) = 7 / 2"
    by (simp add: new_limiter_def take_iter_def refill_def Let_def)
  have c: "limiter_inv \<lparr>capacity = 5, tokens = 4, refillRatePerSec = 5, last_ms = 0\<rparr>"
    using inv tk by blast
  show ?thesis
    using h inv a b c tk by blast
qed

subsection \<open>Coalescing of a batch\<close>

lemma set_first_appearance: "set (first_appearance ks) = set ks"
  by (induction ks) auto

lemma distinct_first_appearance: "distinct (first_appearance ks)"
  by (induction ks) (auto simp: set_first_appearance)

lemma first_appearance_snoc:
  "first_appearance (ks @ [k]) =
     (if k \<in> set ks then first_appearance ks else first_appearance ks @ [k])"
  by (induction ks) auto

lemma Map_set_tabulate:
  "distinct ks \<Longrightarrow>
   Map_set (map (\<lambda>k. (k, h k)) ks) k v =
     map (\<lambda>k'. (k', (h(k := v)) k')) (if k \<in> set ks then ks else ks @ [k])"
  by (induction ks) auto

lemma last_occurrence_snoc:
  "last_occurrence f (xs @ [x]) = (last_occurrence f xs)(f x := x)"
  by (auto simp: last_occurrence_def fun_eq_iff)

lemma Map_fold_tabulate:
  "foldl (\<lambda>m it. Map_set m (f it) it) [] xs =
     map (\<lambda>k. (k, last_occurrence f xs k)) (first_appearance (map f xs))"
proof (induction xs rule: rev_induct)
  case Nil
  then show ?case by simp
next
  case (snoc x xs)
  have "foldl (\<lambda>m it. Map_set m (f it) it) [] (xs @ [x]) =
        Map_set (map (\<lambda>k. (k, last_occurrence f xs k)) (first_appearance (map f xs))) (f x) x"
    by (simp add: snoc.IH)
  also have "\<dots> = map (\<lambda>k'. (k', ((last_occurrence f xs)(f x := x)) k'))
       (if f x \<in> set (first_appearance (map f xs)) then first_appearance (map f xs)
        else first_appearance (map f xs) @ [f x])"
    by (rule Map_set_tabulate) (rule distinct_first_appearance)
  also have "\<dots> = map (\<lambda>k. (k, last_occurrence f (xs @ [x]) k))
       (first_appearance (map f (xs @ [x])))"
    by (simp only: last_occurrence_snoc set_first_appearance first_appearance_snoc
          map_append list.map)
  finally show ?case .
qed

lemma coalesce_dedup_spec: "coalesce allowed = dedup_spec key allowed"
  by (simp add: coalesce_def dedup_spec_def Map_fold_tabulate comp_def)

lemma cmd_name_no_colon: "CHR '':'' \<notin> set (cmd_name c)"
  by (cases c) simp_all

lemma split_first:
  assumes "x \<notin> set xs" and "x \<notin> set xs'"
  shows "xs @ x # ys = xs' @ x # ys' \<longleftrightarrow> xs = xs' \<and> ys = ys'"
  using assms
proof (induction xs arbitrary: xs')
  case Nil
  then show ?case by (cases xs') auto
next
  case (Cons a xs)
  then show ?case by (cases xs') auto
qed

lemma split_at_colon:
  assumes "CHR '':'' \<notin> set u" and "CHR '':'' \<notin> set u'"
  shows "rev u @ CHR '':'' # v = rev u' @ CHR '':'' # v' \<longleftrightarrow> u = u' \<and> v = v'"
  using assms split_first [of "CHR '':''" "rev u" "rev u'" v v'] by simp

lemma key_eq_iff:
  assumes "CHR '':'' \<notin> set (model it1)" and "CHR '':'' \<notin> set (model it2)"
  shows "key it1 = key it2 \<longleftrightarrow> composite_key it1 = composite_key it2"
proof -
  have "key it1 = key it2 \<longleftrightarrow> rev (key it1) = rev (key it2)"
    by simp
  also have "\<dots> \<longleftrightarrow>
      rev (cmd_name (cmd it1)) @ CHR '':'' # (rev (model it1) @ CHR '':'' # rev (deviceId it1)) =
      rev (cmd_name (cmd it2)) @ CHR '':'' # (rev (model it2) @ CHR '':'' # rev (deviceId it2))"
    by (simp add: key_def)
  also have "\<dots> \<longleftrightarrow> cmd_name (cmd it1) = cmd_name (cmd it2) \<and>
      rev (model it1) @ CHR '':'' # rev (deviceId it1) =
      rev (model it2) @ CHR '':'' # rev (deviceId it2)"
    by (rule split_at_colon) (rule cmd_name_no_colon)+
  also have "\<dots> \<longleftrightarrow> cmd_name (cmd it1) = cmd_name (cmd it2) \<and>
      model it1 = model it2 \<and> rev (deviceId it1) = rev (deviceId it2)"
    by (simp only: split_at_colon [OF assms])
  also have "\<dots> \<longleftrightarrow> composite_key it1 = composite_key it2"
    by (auto simp: composite_key_def)
  finally show ?thesis .
qed

lemma first_appearance_map: "first_appearance (map f xs) = map f (first_items f xs)"
  by (induction xs) (simp_all add: filter_map comp_def)

lemma set_first_items: "set (first_items f xs) \<subseteq> set xs"
  by (induction xs) auto

lemma first_items_cong:
  assumes "\<And>x y. x \<in> set xs \<Longrightarrow> y \<in> set xs \<Longrightarrow> f x = f y \<longleftrightarrow> h x = h y"
  shows "first_items f xs = first_items h xs"
  using assms
proof (induction xs)
  case Nil
  then show ?case by simp
next
  case (Cons x xs)
  have ih: "first_items f xs = first_items h xs"
    using Cons.prems by (intro Cons.IH) simp_all
  have "filter (\<lambda>y. f y \<noteq> f x) (first_items h xs) = filter (\<lambda>y. h y \<noteq> h x) (first_items h xs)"
    using Cons.prems set_first_items [of h xs] by (intro filter_cong) auto
  then show ?case by (simp add: ih)
qed

lemma dedup_spec_cong:
  assumes "\<And>x y. x \<in> set xs \<Longrightarrow> y \<in> set xs \<Longrightarrow> f x = f y \<longleftrightarrow> h x = h y"
  shows "dedup_spec f xs = dedup_spec h xs"
proof -
  have "map (\<lambda>x. last (filter (\<lambda>y. f y = f x) xs)) (first_items f xs) =
        map (\<lambda>x. last (filter (\<lambda>y. h y = h x) xs)) (first_items f xs)"
  proof (rule map_cong [OF refl])
    fix x assume "x \<in> set (first_items f xs)"
    then have "x \<in> set xs" using set_first_items by fastforce
    then have "filter (\<lambda>y. f y = f x) xs = filter (\<lambda>y. h y = h x) xs"
      using assms by (intro filter_cong) auto
    then show "last (filter (\<lambda>y. f y = f x) xs) = last (filter (\<lambda>y. h y = h x) xs)"
      by simp
  qed
  then show ?thesis
    by (simp add: dedup_spec_def first_appearance_map last_occurrence_def comp_def
          first_items_cong [OF assms])
qed

lemma coalesce_composite_key:
  assumes "\<And>it. it \<in> set allowed \<Longrightarrow> CHR '':'' \<notin> set (model it)"
  shows "coalesce allowed = dedup_spec composite_key allowed"
proof -
  have "dedup_spec key allowed = dedup_spec composite_key allowed"
    by (rule dedup_spec_cong) (simp add: key_eq_iff assms)
  then show ?thesis by (simp add: coalesce_dedup_spec)
qed

lemma coalesce_example:
  "coalesce [\<lparr>deviceId = ''A'', model = ''H6104'', cmd = Brightness 10\<rparr>,
             \<lparr>deviceId = ''A'', model = ''H6104'', cmd = Brightness 90\<rparr>,
             \<lparr>deviceId = ''A'', model = ''H6104'', cmd = Color \<lparr>r = 255, g = 0, b = 0\<rparr>\<rparr>]
     = [\<lparr>deviceId = ''A'', model = ''H6104'', cmd = Brightness 90\<rparr>,
        \<lparr>deviceId = ''A'', model = ''H6104'', cmd = Color \<lparr>r = 255, g = 0, b = 0\<rparr>\<rparr>]"
  by (simp add: coalesce_def key_def)

text \<open>
  Claim C1, at an input where the code departs from it. The two items below are for
  different devices, so their composite keys \<open>(deviceId, model, cmd.kind)\<close> differ and
  the rule of the claim keeps both; their key strings are both \<^verbatim>\<open>A:B:C:turn\<close>, and
  the code keeps only the second.
\<close>

theorem coalesce_key_collision:
  "coalesce [\<lparr>deviceId = ''A'', model = ''B:C'', cmd = Turn On\<rparr>,
             \<lparr>deviceId = ''A:B'', model = ''C'', cmd = Turn Off\<rparr>]
     = [\<lparr>deviceId = ''A:B'', model = ''C'', cmd = Turn Off\<rparr>]
   \<and> dedup_spec composite_key
       [\<lparr>deviceId = ''A'', model = ''B:C'', cmd = Turn On\<rparr>,
        \<lparr>deviceId = ''A:B'', model = ''C'', cmd = Turn Off\<rparr>]
     = [\<lparr>deviceId = ''A'', model = ''B:C'', cmd = Turn On\<rparr>,
        \<lparr>deviceId = ''A:B'', model = ''C'', cmd = Turn Off\<rparr>]"
  by (simp add: coalesce_def key_def dedup_spec_def composite_key_def last_occurrence_def)

subsection \<open>Encoding a command and decoding it again\<close>

lemma ToInt32_of_int: "ToInt32 (Finite (of_int x)) = word_of_int x"
  by (simp add: ToInt32_def)

lemma ToInt32_of_int32: "ToInt32 (Finite (of_int32 w)) = w"
  by (simp add: ToInt32_def of_int32_def del: of_int_sint) simp

lemma byte_or_eq_add:
  assumes "0 \<le> x" "x \<le> 255" "0 \<le> y" "y \<le> 255" "0 \<le> z" "z \<le> 255"
  shows "push_bit 16 x OR push_bit 8 y OR z = x * 65536 + y * 256 + (z::int)"
proof -
  have tx: "take_bit 8 x = x" and ty: "take_bit 8 y = y" and tz: "take_bit 8 z = z"
    using assms by (simp_all add: take_bit_int_eq_self)
  have "concat_bit 8 z (concat_bit 8 y x) = z OR push_bit 8 (y OR push_bit 8 x)"
    by (simp add: concat_bit_def tx ty tz)
  moreover have "concat_bit 8 z (concat_bit 8 y x) = z + push_bit 8 (y + push_bit 8 x)"
    by (simp add: concat_bit_eq tx ty tz)
  ultimately have "z OR push_bit 8 (y OR push_bit 8 x) = z + push_bit 8 (y + push_bit 8 x)"
    by simp
  then have "z OR (push_bit 8 y OR push_bit 16 x) = z + (push_bit 8 y + push_bit 16 x)"
    by (simp only: push_bit_or push_bit_add push_bit_push_bit) simp
  then have "push_bit 16 x OR push_bit 8 y OR z = push_bit 16 x + push_bit 8 y + z"
    by (simp only: ac_simps)
  then show ?thesis
    by (simp add: push_bit_eq_mult)
qed

lemma sint_below_2p24:
  assumes "0 \<le> n" "n < 2 ^ 24"
  shows "sint (word_of_int n :: 32 word) = n"
proof -
  have "signed_take_bit 31 n = n"
    using assms by (intro signed_take_bit_int_eq_self) simp_all
  then show ?thesis by (simp add: sint_sbintrunc')
qed

lemma pack_word_of_int:
  "(push_bit 16 (word_of_int x) OR push_bit 8 (word_of_int y) OR word_of_int z :: 32 word)
     = word_of_int (push_bit 16 x OR push_bit 8 y OR z)"
  by (rule bit_word_eqI) (auto simp add: bit_simps)

lemma pack_eq:
  assumes "0 \<le> x" "x \<le> 255" "0 \<le> y" "y \<le> 255" "0 \<le> z" "z \<le> 255"
  shows "(push_bit 16 (word_of_int x) OR push_bit 8 (word_of_int y) OR word_of_int z :: 32 word)
     = word_of_int (x * 65536 + y * 256 + z)"
  by (simp only: pack_word_of_int byte_or_eq_add [OF assms])

lemma encode_color:
  assumes "0 \<le> x" "x \<le> 255" "0 \<le> y" "y \<le> 255" "0 \<le> z" "z \<le> 255"
  shows "control_capability (Color \<lparr>r = of_int x, g = of_int y, b = of_int z\<rparr>) =
     \<lparr>cap_type = ''devices.capabilities.color_setting'', cap_instance = ''colorRgb'',
      cap_value = WNum (of_int (x * 65536 + y * 256 + z))\<rparr>"
proof -
  define n where "n = x * 65536 + y * 256 + z"
  have "0 \<le> n" "n < 2 ^ 24"
    using assms by (simp_all add: n_def)
  then have "sint (word_of_int n :: 32 word) = n"
    by (rule sint_below_2p24)
  then have "of_int32 (word_of_int n) = of_int n"
    by (simp add: of_int32_def del: of_int_sint)
  then show ?thesis
    unfolding n_def
    by (simp only: control_capability.simps rgb.simps ToInt32_of_int pack_eq [OF assms])
qed

lemma unpack:
  assumes "0 \<le> x" "x \<le> 255" "0 \<le> y" "y \<le> 255" "0 \<le> z" "z \<le> 255"
  defines "w \<equiv> (word_of_int (x * 65536 + y * 256 + z) :: 32 word)"
  shows "of_int32 (signed_drop_bit 16 w AND 255) = of_int x"
    and "of_int32 (signed_drop_bit 8 w AND 255) = of_int y"
    and "of_int32 (w AND 255) = of_int z"
proof -
  have m: "(255 :: 32 word) = mask 8" by (simp add: mask_eq_exp_minus_1)
  have tx: "take_bit 8 x = x" and ty: "take_bit 8 y = y" and tz: "take_bit 8 z = z"
    using assms by (simp_all add: take_bit_int_eq_self)
  have w: "w = push_bit 16 (word_of_int (take_bit 8 x)) OR push_bit 8 (word_of_int (take_bit 8 y))
                 OR word_of_int (take_bit 8 z)"
    unfolding w_def using pack_eq [OF assms(1-6)] by (simp add: tx ty tz)
  have "signed_drop_bit 16 w AND mask 8 = word_of_int (take_bit 8 x)"
    unfolding w by (rule bit_word_eqI) (auto simp add: bit_simps)
  then show "of_int32 (signed_drop_bit 16 w AND 255) = of_int x"
    using assms(1,2) by (simp add: m tx of_int32_def sint_below_2p24 del: of_int_sint)
  have "signed_drop_bit 8 w AND mask 8 = word_of_int (take_bit 8 y)"
    unfolding w by (rule bit_word_eqI) (auto simp add: bit_simps)
  then show "of_int32 (signed_drop_bit 8 w AND 255) = of_int y"
    using assms(3,4) by (simp add: m ty of_int32_def sint_below_2p24 del: of_int_sint)
  have "w AND mask 8 = word_of_int (take_bit 8 z)"
    unfolding w by (rule bit_word_eqI) (auto simp add: bit_simps)
  then show "of_int32 (w AND 255) = of_int z"
    using assms(5,6) by (simp add: m tz of_int32_def sint_below_2p24 del: of_int_sint)
qed

lemma decode_color:
  assumes "0 \<le> x" "x \<le> 255" "0 \<le> y" "y \<le> 255" "0 \<le> z" "z \<le> 255"
  shows "getState_caps env
     [\<lparr>cap_type = ''devices.capabilities.color_setting'', cap_instance = ''colorRgb'',
      cap_value = WNum (of_int (x * 65536 + y * 256 + z))\<rparr>]
    = empty_State\<lparr>color := Some \<lparr>r = of_int x, g = of_int y, b = of_int z\<rparr>\<rparr>"
  by (simp add: getState_caps_def getState_cap_def empty_State_def ToInt32_of_int
        unpack [OF assms] del: of_int_add of_int_mult)

lemma roundtrip_color:
  assumes "0 \<le> x" "x \<le> 255" "0 \<le> y" "y \<le> 255" "0 \<le> z" "z \<le> 255"
  shows "getState_caps env [control_capability (Color \<lparr>r = of_int x, g = of_int y, b = of_int z\<rparr>)]
    = empty_State\<lparr>color := Some \<lparr>r = of_int x, g = of_int y, b = of_int z\<rparr>\<rparr>"
  by (simp only: encode_color [OF assms] decode_color [OF assms])

lemma color_10_20_30:
  "control_capability (Color \<lparr>r = 10, g = 20, b = 30\<rparr>) =
     \<lparr>cap_type = ''devices.capabilities.color_setting'', cap_instance = ''colorRgb'',
      cap_value = WNum 660510\<rparr>"
  and "color (getState_caps env
     [\<lparr>cap_type = ''devices.capabilities.color_setting'', cap_instance = ''colorRgb'',
      cap_value = WNum 660510\<rparr>]) = Some \<lparr>r = 10, g = 20, b = 30\<rparr>"
  using encode_color [of 10 20 30] decode_color [of 10 20 30 env] by simp_all

lemma roundtrip_turn:
  "getState_caps env [control_capability (Turn v)] = empty_State\<lparr>power_state := Some v\<rparr>"
  by (cases v) (simp_all add: getState_caps_def getState_cap_def)

lemma roundtrip_brightness:
  "getState_caps env [control_capability (Brightness v)]
     = empty_State\<lparr>brightness := Some (Finite v)\<rparr>"
  by (simp add: getState_caps_def getState_cap_def)

lemma roundtrip_colorTem:
  "getState_caps env [control_capability (ColorTem v)]
     = empty_State\<lparr>colorTem := Some (Finite v)\<rparr>"
  by (simp add: getState_caps_def getState_cap_def)

text \<open>
  Claim C2, at the variant where the code departs from it. A scene command is encoded as
  a \<^verbatim>\<open>dynamic_scene\<close>/\<^verbatim>\<open>lightScene\<close> capability, which the decoding loop of
  \<^verbatim>\<open>getState\<close> matches in none of its four tests: the decoded state is empty and its
  \<open>scene\<close> field absent, for every scene string. (For the other four variants the
  lemmas above give the round trip, with the packed colour value of the claim.)
\<close>

theorem scene_not_decoded:
  "getState_caps env [control_capability (Scene sc)] = empty_State
   \<and> scene (getState_caps env_ok [control_capability (Scene ''sunset'')]) = None"
  by (simp add: getState_caps_def getState_cap_def empty_State_def)

subsection \<open>Dry run\<close>

text \<open>
  Claim C5. With the dry-run flag set, \<^verbatim>\<open>CloudAdapter.control\<close> and
  \<^verbatim>\<open>CloudAdapter.batch\<close> return successfully and send no request, for every device
  reference, command and list of items.
\<close>

theorem dry_run_no_network:
  "DRY_RUN env \<Longrightarrow>
     cloud_control env ref c = (Inr (), []) \<and> cloud_batch env items = (Inr (), [])"
  by (simp add: cloud_control_def cloud_batch_def)

text \<open>
  The theorem at a vendor that answers 500: with the flag set both calls succeed and send
  nothing; without it the same \<^verbatim>\<open>control\<close> sends its request and throws.
\<close>

theorem dry_run_no_network_witness:
  "DRY_RUN (env_down\<lparr>DRY_RUN := True\<rparr>)
   \<and> cloud_control (env_down\<lparr>DRY_RUN := True\<rparr>) \<lparr>deviceId = ''A'', model = ''H6104''\<rparr>
        (Brightness 50) = (Inr (), [])
   \<and> cloud_batch (env_down\<lparr>DRY_RUN := True\<rparr>)
        [\<lparr>deviceId = ''A'', model = ''H6104'', cmd = Turn On\<rparr>,
         \<lparr>deviceId = ''B'', model = ''H6104'', cmd = Scene ''sunset''\<rparr>] = (Inr (), [])
   \<and> cloud_control env_down \<lparr>deviceId = ''A'', model = ''H6104''\<rparr> (Brightness 50)
       = (Inl (Error [Lit ''Govee API error '', Val 500, Lit '': Request failed'']),
          [\<lparr>meth = POST, path = ''/device/control'',
            payload = ControlPayload ''H6104'' ''A''
              \<lparr>cap_type = ''devices.capabilities.range'', cap_instance = ''brightness'',
               cap_value = WNum 50\<rparr>\<rparr>])"
proof -
  have d: "DRY_RUN (env_down\<lparr>DRY_RUN := True\<rparr>)"
    by simp
  have "cloud_control env_down \<lparr>deviceId = ''A'', model = ''H6104''\<rparr> (Brightness 50)
       = (Inl (Error [Lit ''Govee API error '', Val 500, Lit '': Request failed'']),
          [\<lparr>meth = POST, path = ''/device/control'',
            payload = ControlPayload ''H6104'' ''A''
              \<lparr>cap_type = ''devices.capabilities.range'', cap_instance = ''brightness'',
               cap_value = WNum 50\<rparr>\<rparr>])"
    by (simp add: cloud_control_def post_def env_down_def env_ok_def)
  then show ?thesis
    using d dry_run_no_network [OF d] by simp
qed

subsection \<open>Errors of the transport\<close>

text \<open>
  Claim C6. For a response that is not a success, the error thrown by \<^verbatim>\<open>post\<close> and by
  \<^verbatim>\<open>get\<close> has the message \<^verbatim>\<open>Govee API error <status>: Request failed\<close>, made of
  the status alone; so two such responses with the same status give the same error,
  whatever their bodies.
\<close>

theorem upstream_error_status_only:
  assumes "fetch env1 \<lparr>meth = POST, path = p1, payload = pl1\<rparr>
             = \<lparr>ok = False, status = n, body = body1\<rparr>"
    and "fetch env2 \<lparr>meth = POST, path = p2, payload = pl2\<rparr>
             = \<lparr>ok = False, status = n, body = body2\<rparr>"
    and "fetch env1 \<lparr>meth = GET, path = q1, payload = NoPayload\<rparr>
             = \<lparr>ok = False, status = k, body = body3\<rparr>"
    and "fetch env2 \<lparr>meth = GET, path = q2, payload = NoPayload\<rparr>
             = \<lparr>ok = False, status = k, body = body4\<rparr>"
  shows "post env1 p1 pl1
           = Inl (Error [Lit ''Govee API error '', Val (of_nat n), Lit '': Request failed''])
       \<and> post env2 p2 pl2 = post env1 p1 pl1
       \<and> get env1 q1
           = Inl (Error [Lit ''Govee API error '', Val (of_nat k), Lit '': Request failed''])
       \<and> get env2 q2 = get env1 q1"
  using assms by (simp add: post_def get_def)

text \<open>The theorem at two vendors that answer 500 with different bodies.\<close>

theorem upstream_error_status_only_witness:
  "post env_down ''/device/state'' (StatePayload ''H6104'' ''A'')
     = Inl (Error [Lit ''Govee API error '', Val 500, Lit '': Request failed''])
   \<and> post (env_down\<lparr>fetch := (\<lambda>rq. \<lparr>ok = False, status = 500, body = StateBody []\<rparr>)\<rparr>)
        ''/device/control'' NoPayload
     = post env_down ''/device/state'' (StatePayload ''H6104'' ''A'')
   \<and> get env_down ''/user/devices''
     = Inl (Error [Lit ''Govee API error '', Val 500, Lit '': Request failed''])
   \<and> get (env_down\<lparr>fetch := (\<lambda>rq. \<lparr>ok = False, status = 500, body = StateBody []\<rparr>)\<rparr>)
        ''/user/devices''
     = get env_down ''/user/devices''"
proof -
  let ?env2 = "env_down\<lparr>fetch := (\<lambda>rq. \<lparr>ok = False, status = 500, body = StateBody []\<rparr>)\<rparr>"
  have 1: "fetch env_down \<lparr>meth = POST, path = ''/device/state'',
             payload = StatePayload ''H6104'' ''A''\<rparr>
           = \<lparr>ok = False, status = 500, body = OtherBody ''secret''\<rparr>"
    and 3: "fetch env_down \<lparr>meth = GET, path = ''/user/devices'', payload = NoPayload\<rparr>
           = \<lparr>ok = False, status = 500, body = OtherBody ''secret''\<rparr>"
    by (simp_all add: env_down_def)
  have 2: "fetch ?env2 \<lparr>meth = POST, path = ''/device/control'', payload = NoPayload\<rparr>
           = \<lparr>ok = False, status = 500, body = StateBody []\<rparr>"
    and 4: "fetch ?env2 \<lparr>meth = GET, path = ''/user/devices'', payload = NoPayload\<rparr>
           = \<lparr>ok = False, status = 500, body = StateBody []\<rparr>"
    by simp_all
  show ?thesis
    using upstream_error_status_only [OF 1 2 3 4] by simp
qed

subsection \<open>What a batch sends\<close>


lemma coalesce_nonempty: "allowed \<noteq> [] \<Longrightarrow> coalesce allowed \<noteq> []"
  by (cases allowed) (simp_all add: coalesce_dedup_spec dedup_spec_def)

lemma set_Map_set: "set (Map_set m k v) \<subseteq> insert (k, v) (set m)"
  by (induction m) (auto split: if_splits)




subsection \<open>The allowlist\<close>



lemma batch_none_allowed:
  "filter (\<lambda>i. isAllowed env (deviceId i)) items = [] \<Longrightarrow>
     batch env bucket clock items =
       Some \<lparr>result = Inl (Error [Lit ''No allowed items'']), limiter = bucket, events = []\<rparr>"
  by (simp add: batch_def)




subsection \<open>One admission per batch\<close>

lemma takes_batch_events: "takes [Take, Parallel rqss] = 1"
  by (simp add: takes_def)

text \<open>
  Claim C7, as amended. A batch with at least one allowed item calls \<^verbatim>\<open>take()\<close> once:
  it returns exactly when that call returns, its trace then holds one \<open>Take\<close>, and the
  limiter it leaves is the one that call leaves, which is the bucket refilled over the
  clock readings used, less one token; whatever the number of items, devices and requests.
  A batch with no allowed item ends before \<^verbatim>\<open>take()\<close>: no \<open>Take\<close>, and the limiter
  as it was. And the batch does return, once the clock readings reach far enough for the
  bucket to hold a token.
\<close>

theorem batch_one_admission:
  "(filter (\<lambda>i. isAllowed env (deviceId i)) items \<noteq> [] \<longrightarrow>
      (batch env bucket clock items = None \<longleftrightarrow> take_bucket bucket clock = None)
      \<and> (\<forall>out. batch env bucket clock items = Some out \<longrightarrow>
            takes (events out) = 1
            \<and> (\<exists>used rest. clock = used @ rest \<and> used \<noteq> []
                 \<and> take_bucket bucket clock = Some (limiter out, rest)
                 \<and> 1 \<le> tokens (refills bucket used)
                 \<and> limiter out
                     = (refills bucket used)\<lparr>tokens := tokens (refills bucket used) - 1\<rparr>)))
   \<and> (filter (\<lambda>i. isAllowed env (deviceId i)) items = [] \<longrightarrow>
        (\<exists>out. batch env bucket clock items = Some out \<and> takes (events out) = 0
            \<and> limiter out = bucket))
   \<and> (limiter_inv bucket \<and> 0 < refillRatePerSec bucket \<and> sorted (last_ms bucket # clock)
        \<and> clock \<noteq> []
        \<and> 1 \<le> tokens bucket + (last clock - last_ms bucket) / 1000 * refillRatePerSec bucket
      \<longrightarrow> batch env bucket clock items \<noteq> None)"
proof (intro conjI impI allI)
  assume ne: "filter (\<lambda>i. isAllowed env (deviceId i)) items \<noteq> []"
  show "batch env bucket clock items = None \<longleftrightarrow> take_bucket bucket clock = None"
    using ne by (auto simp: batch_def Let_def split: option.splits)
  fix out
  assume b: "batch env bucket clock items = Some out"
  with ne obtain bucket' rest where t: "take_bucket bucket clock = Some (bucket', rest)"
    by (auto simp: batch_def Let_def split: option.splits)
  with ne b have l: "limiter out = bucket'" and ev: "\<exists>rqss. events out = [Take, Parallel rqss]"
    by (auto simp: batch_def Let_def)
  from ev show "takes (events out) = 1"
    using takes_batch_events by auto
  from take_bucket_consumes_one [OF t] obtain used where
    "clock = used @ rest" "used \<noteq> []" "1 \<le> tokens (refills bucket used)"
    "bucket' = (refills bucket used)\<lparr>tokens := tokens (refills bucket used) - 1\<rparr>"
    by blast
  with t l show "\<exists>used rest. clock = used @ rest \<and> used \<noteq> []
                 \<and> take_bucket bucket clock = Some (limiter out, rest)
                 \<and> 1 \<le> tokens (refills bucket used)
                 \<and> limiter out
                     = (refills bucket used)\<lparr>tokens := tokens (refills bucket used) - 1\<rparr>"
    by blast
next
  assume "filter (\<lambda>i. isAllowed env (deviceId i)) items = []"
  then show "\<exists>out. batch env bucket clock items = Some out \<and> takes (events out) = 0
            \<and> limiter out = bucket"
    by (simp add: batch_none_allowed takes_def)
next
  assume "limiter_inv bucket \<and> 0 < refillRatePerSec bucket \<and> sorted (last_ms bucket # clock)
        \<and> clock \<noteq> []
        \<and> 1 \<le> tokens bucket + (last clock - last_ms bucket) / 1000 * refillRatePerSec bucket"
  then have "\<exists>s' rest. take_bucket bucket clock = Some (s', rest)"
    by (intro take_bucket_returns) simp_all
  then show "batch env bucket clock items \<noteq> None"
    by (auto simp: batch_def Let_def)
qed

text \<open>
  The theorem at a batch of four items that finds the bucket empty and waits four passes.
\<close>

theorem batch_one_admission_witness:
  "filter (\<lambda>i. isAllowed env_ok (deviceId i)) example_items \<noteq> []
   \<and> limiter_inv \<lparr>capacity = 5, tokens = 0, refillRatePerSec = 5, last_ms = 0\<rparr>
   \<and> sorted [0 :: rat, 0, 50, 100, 150, 200, 250]
   \<and> take_bucket \<lparr>capacity = 5, tokens = 0, refillRatePerSec = 5, last_ms = 0\<rparr>
        [0, 50, 100, 150, 200, 250]
       = Some (\<lparr>capacity = 5, tokens = 0, refillRatePerSec = 5, last_ms = 200\<rparr>, [250])
   \<and> (\<exists>out. batch env_ok \<lparr>capacity = 5, tokens = 0, refillRatePerSec = 5, last_ms = 0\<rparr>
               [0, 50, 100, 150, 200, 250] example_items = Some out
          \<and> takes (events out) = 1
          \<and> limiter out = \<lparr>capacity = 5, tokens = 0, refillRatePerSec = 5, last_ms = 200\<rparr>)"
proof -
  let ?b = "\<lparr>capacity = 5, tokens = 0, refillRatePerSec = 5, last_ms = 0\<rparr>"
  let ?clock = "[0, 50, 100, 150, 200, 250 :: rat]"
  have ne: "filter (\<lambda>i. isAllowed env_ok (deviceId i)) example_items \<noteq> []"
    by (simp add: example_items_def isAllowed_def env_ok_def)
  have t: "take_bucket ?b ?clock
       = Some (\<lparr>capacity = 5, tokens = 0, refillRatePerSec = 5, last_ms = 200\<rparr>, [250])"
    by (simp add: take_iter_def refill_def Let_def)
  note one = batch_one_admission [of env_ok example_items ?b ?clock]
  from one ne t have "batch env_ok ?b ?clock example_items \<noteq> None"
    by simp
  then obtain out where out: "batch env_ok ?b ?clock example_items = Some out"
    by blast
  with one ne have "takes (events out) = 1"
    and "\<exists>used rest. take_bucket ?b ?clock = Some (limiter out, rest)"
    by blast+
  with t out have "batch env_ok ?b ?clock example_items = Some out \<and> takes (events out) = 1
      \<and> limiter out = \<lparr>capacity = 5, tokens = 0, refillRatePerSec = 5, last_ms = 200\<rparr>"
    by auto
  moreover have "limiter_inv ?b" "sorted [0 :: rat, 0, 50, 100, 150, 200, 250]"
    by (simp_all add: limiter_inv_def)
  ultimately show ?thesis
    using ne t by blast
qed

text \<open>
  Claim C7 as stated fails on a batch whose only item is for a device outside the
  allowlist: the batch ends with no \<open>Take\<close> and the bucket still full.
\<close>

theorem batch_without_admission:
  "batch (env_ok\<lparr>ALLOWLIST := {''A''}\<rparr>) (new_limiter 5 0) [0]
        [\<lparr>deviceId = ''B'', model = ''H6104'', cmd = Turn On\<rparr>]
     = Some \<lparr>result = Inl (Error [Lit ''No allowed items'']), limiter = new_limiter 5 0,
             events = []\<rparr>
   \<and> takes [] = 0
   \<and> tokens (new_limiter 5 0) = 5"
  by (simp add: batch_def isAllowed_def env_ok_def takes_def new_limiter_def)

subsection \<open>Rounding of brightness and colour temperature\<close>

lemma Math_round_Ints: "Math_round x \<in> \<int>"
  by (simp add: Math_round_def)

lemma Math_round_nearest: "\<bar>Math_round x - x\<bar> \<le> 1 / 2"
proof -
  have "of_int \<lfloor>x + 1 / 2\<rfloor> \<le> x + 1 / 2" "x + 1 / 2 < of_int \<lfloor>x + 1 / 2\<rfloor> + 1"
    by linarith+
  then show ?thesis
    unfolding Math_round_def by linarith
qed

lemma Math_round_tie: "Math_round (of_int n + 1 / 2) = of_int n + 1"
proof -
  have "of_int n + 1 / 2 + 1 / 2 = (of_int (n + 1) :: rat)"
    by simp
  then have "\<lfloor>of_int n + 1 / 2 + 1 / 2 :: rat\<rfloor> = n + 1"
    by (simp only: floor_of_int)
  then show ?thesis
    by (simp add: Math_round_def)
qed

lemma Math_round_of_int: "Math_round (of_int n) = of_int n"
proof -
  have "\<lfloor>(1 / 2 :: rat) + of_int n\<rfloor> = \<lfloor>1 / 2 :: rat\<rfloor> + n"
    by (rule floor_add_int [symmetric])
  moreover have "\<lfloor>1 / 2 :: rat\<rfloor> = 0"
    by (simp add: floor_eq_iff)
  ultimately show ?thesis
    by (simp add: Math_round_def add.commute)
qed

lemma control_op_cloud:
  assumes "isAllowed env did" and "\<not> lanEnabled env" and "\<not> DRY_RUN env"
    and "take_bucket bucket clock = Some (bucket', rest)"
  shows "control_op env bucket clock did mdl c msg =
     Some \<lparr>result =
             (if ok (fetch env \<lparr>meth = POST, path = ''/device/control'',
                     payload = ControlPayload mdl did (control_capability c)\<rparr>)
              then Inr (Text msg)
              else Inl (Error [Lit ''Govee API error '',
                     Val (of_nat (status (fetch env \<lparr>meth = POST, path = ''/device/control'',
                       payload = ControlPayload mdl did (control_capability c)\<rparr>))),
                     Lit '': Request failed''])),
           limiter = bucket',
           events = [Take, Http \<lparr>meth = POST, path = ''/device/control'',
                     payload = ControlPayload mdl did (control_capability c)\<rparr>]\<rparr>"
  using assms
  by (simp add: control_op_def pickAdapter_def cloud_control_def post_def Let_def)

text \<open>
  Claim C8. \<^verbatim>\<open>set_brightness\<close> and \<^verbatim>\<open>set_color_temp\<close> round their argument with
  \<^verbatim>\<open>Math.round\<close>, which gives an integer at most one half away from it. On an allowed
  device routed to the cloud (no dry run), once the limiter admits the call, the one
  request sent carries the rounded value and the success text echoes the rounded value.
  The zod schema of the registered tool lets every number in the range through to the
  handler, integer or not. Two arguments that round to the same integer give the same
  outcome.
\<close>

theorem set_ops_round:
  assumes "isAllowed env did" and "\<not> lanEnabled env" and "\<not> DRY_RUN env"
    and "take_bucket bucket clock = Some (bucket', rest)"
  shows "Math_round v \<in> \<int> \<and> \<bar>Math_round v - v\<bar> \<le> 1 / 2
    \<and> set_brightness env bucket clock did mdl v =
       Some \<lparr>result =
               (if ok (fetch env \<lparr>meth = POST, path = ''/device/control'',
                       payload = ControlPayload mdl did
                         \<lparr>cap_type = ''devices.capabilities.range'',
                          cap_instance = ''brightness'', cap_value = WNum (Math_round v)\<rparr>\<rparr>)
                then Inr (Text [Lit ''Brightness set to '', Val (Math_round v), Lit ''%.''])
                else Inl (Error [Lit ''Govee API error '',
                       Val (of_nat (status (fetch env \<lparr>meth = POST, path = ''/device/control'',
                         payload = ControlPayload mdl did
                           \<lparr>cap_type = ''devices.capabilities.range'',
                            cap_instance = ''brightness'',
                            cap_value = WNum (Math_round v)\<rparr>\<rparr>))),
                       Lit '': Request failed''])),
             limiter = bucket',
             events = [Take, Http \<lparr>meth = POST, path = ''/device/control'',
                       payload = ControlPayload mdl did
                         \<lparr>cap_type = ''devices.capabilities.range'',
                          cap_instance = ''brightness'', cap_value = WNum (Math_round v)\<rparr>\<rparr>]\<rparr>
    \<and> set_color_temp env bucket clock did mdl v =
       Some \<lparr>result =
               (if ok (fetch env \<lparr>meth = POST, path = ''/device/control'',
                       payload = ControlPayload mdl did
                         \<lparr>cap_type = ''devices.capabilities.color_setting'',
                          cap_instance = ''colorTemperatureK'',
                          cap_value = WNum (Math_round v)\<rparr>\<rparr>)
                then Inr (Text [Lit ''Color temp set to '', Val (Math_round v), Lit ''K.''])
                else Inl (Error [Lit ''Govee API error '',
                       Val (of_nat (status (fetch env \<lparr>meth = POST, path = ''/device/control'',
                         payload = ControlPayload mdl did
                           \<lparr>cap_type = ''devices.capabilities.color_setting'',
                            cap_instance = ''colorTemperatureK'',
                            cap_value = WNum (Math_round v)\<rparr>\<rparr>))),
                       Lit '': Request failed''])),
             limiter = bucket',
             events = [Take, Http \<lparr>meth = POST, path = ''/device/control'',
                       payload = ControlPayload mdl did
                         \<lparr>cap_type = ''devices.capabilities.color_setting'',
                          cap_instance = ''colorTemperatureK'',
                          cap_value = WNum (Math_round v)\<rparr>\<rparr>]\<rparr>
    \<and> (0 \<le> v \<and> v \<le> 100 \<longrightarrow>
         registered_tool env bucket clock (Set_brightness did mdl v)
           = Accepted (set_brightness env bucket clock did mdl v))
    \<and> (1000 \<le> v \<and> v \<le> 10000 \<longrightarrow>
         registered_tool env bucket clock (Set_color_temp did mdl v)
           = Accepted (set_color_temp env bucket clock did mdl v))
    \<and> handler env bucket clock (Set_brightness did mdl v)
         = set_brightness env bucket clock did mdl v
    \<and> handler env bucket clock (Set_color_temp did mdl v)
         = set_color_temp env bucket clock did mdl v
    \<and> (\<forall>v'. Math_round v' = Math_round v \<longrightarrow>
          set_brightness env bucket clock did mdl v' = set_brightness env bucket clock did mdl v
          \<and> set_color_temp env bucket clock did mdl v'
              = set_color_temp env bucket clock did mdl v)"
  using Math_round_Ints [of v] Math_round_nearest [of v]
  by (simp add: set_brightness_def set_color_temp_def control_op_cloud [OF assms]
        registered_tool_def)

text \<open>The theorem at a brightness of 49.5 percent, which is sent and echoed as 50.\<close>

theorem set_ops_round_witness:
  "isAllowed env_ok ''A'' \<and> \<not> lanEnabled env_ok \<and> \<not> DRY_RUN env_ok
   \<and> Math_round (99 / 2) = 50
   \<and> set_brightness env_ok (new_limiter 5 0) [0] ''A'' ''H6104'' (99 / 2) =
       Some \<lparr>result = Inr (Text [Lit ''Brightness set to '', Val 50, Lit ''%.'']),
             limiter = \<lparr>capacity = 5, tokens = 4, refillRatePerSec = 5, last_ms = 0\<rparr>,
             events = [Take, Http \<lparr>meth = POST, path = ''/device/control'',
                       payload = ControlPayload ''H6104'' ''A''
                         \<lparr>cap_type = ''devices.capabilities.range'',
                          cap_instance = ''brightness'', cap_value = WNum 50\<rparr>\<rparr>]\<rparr>
   \<and> registered_tool env_ok (new_limiter 5 0) [0] (Set_brightness ''A'' ''H6104'' (99 / 2))
       = Accepted (set_brightness env_ok (new_limiter 5 0) [0] ''A'' ''H6104'' (99 / 2))
   \<and> set_brightness env_ok (new_limiter 5 0) [0] ''A'' ''H6104'' 50
       = set_brightness env_ok (new_limiter 5 0) [0] ''A'' ''H6104'' (99 / 2)"
proof -
  have h: "isAllowed env_ok ''A''" "\<not> lanEnabled env_ok" "\<not> DRY_RUN env_ok"
    by (simp_all add: isAllowed_def env_ok_def)
  have m: "Math_round (99 / 2) = 50"
    by (simp add: Math_round_def)
  have okr: "ok (fetch env_ok rq)" for rq
    by (simp add: env_ok_def)
  have m': "Math_round 50 = Math_round (99 / 2)"
    using Math_round_of_int [of 50] m by simp
  note t = set_ops_round [OF h take_bucket_full, of "99 / 2" "''H6104''"]
  have "set_brightness env_ok (new_limiter 5 0) [0] ''A'' ''H6104'' 50
       = set_brightness env_ok (new_limiter 5 0) [0] ''A'' ''H6104'' (99 / 2)"
    using t m' by blast
  then show ?thesis
    using h m t okr by simp
qed

subsection \<open>Routing\<close>

lemma list_devices_lan_flag:
  "list_devices (env\<lparr>lanEnabled := flag\<rparr>) bucket clock = list_devices env bucket clock"
proof -
  have 1: "cloud_listDevices (env\<lparr>lanEnabled := flag\<rparr>) = cloud_listDevices env"
    by (simp add: cloud_listDevices_def get_def)
  have 2: "isAllowed (env\<lparr>lanEnabled := flag\<rparr>) = isAllowed env"
    by (simp add: isAllowed_def fun_eq_iff)
  show ?thesis
    unfolding list_devices_def 1 2 by (rule refl)
qed

lemma list_devices_events:
  "take_bucket bucket clock = Some (bucket', rest) \<Longrightarrow>
     \<exists>out. list_devices env bucket clock = Some out \<and> limiter out = bucket' \<and>
       events out = [Take, Http \<lparr>meth = GET, path = ''/user/devices'', payload = NoPayload\<rparr>]"
  by (auto simp: list_devices_def cloud_listDevices_def split: sum.splits)

lemma control_op_lan:
  assumes "isAllowed env did" and "lanEnabled env"
    and "take_bucket bucket clock = Some (bucket', rest)"
  shows "control_op env bucket clock did mdl c msg =
     Some \<lparr>result = Inl (Error [Lit ''LAN control not implemented'']), limiter = bucket',
           events = [Take]\<rparr>"
  using assms by (simp add: control_op_def pickAdapter_def lan_control_def)

lemma get_state_lan:
  assumes "isAllowed env did" and "lanEnabled env"
    and "take_bucket bucket clock = Some (bucket', rest)"
  shows "get_state env bucket clock did mdl =
     Some \<lparr>result = Inl (Error [Lit ''LAN getState not implemented'']), limiter = bucket',
           events = [Take]\<rparr>"
  using assms by (simp add: get_state_def pickAdapter_def lan_getState_def)

lemma Map_set_not_Nil: "Map_set m k v \<noteq> []"
  by (cases m) (auto split: if_splits)

lemma byDevice_not_Nil: "deduped \<noteq> [] \<Longrightarrow> byDevice deduped \<noteq> []"
proof (induction deduped rule: rev_induct)
  case Nil
  then show ?case by simp
next
  case (snoc x xs)
  show ?case by (simp add: byDevice_def Map_set_not_Nil)
qed

lemma byDevice_group_not_Nil: "(d, its) \<in> set (byDevice deduped) \<Longrightarrow> its \<noteq> []"
proof (induction deduped arbitrary: d its rule: rev_induct)
  case Nil
  then show ?case by (simp add: byDevice_def)
next
  case (snoc x xs)
  let ?old = "case map_of (byDevice xs) (deviceId x) of None \<Rightarrow> [] | Some arr \<Rightarrow> arr"
  have "byDevice (xs @ [x]) = Map_set (byDevice xs) (deviceId x) (?old @ [x])"
    by (simp add: byDevice_def)
  with snoc.prems set_Map_set
  have "(d, its) = (deviceId x, ?old @ [x]) \<or> (d, its) \<in> set (byDevice xs)"
    by fastforce
  then show ?case using snoc.IH by auto
qed

lemma group_task_lan:
  assumes "lanEnabled env" and "snd grp \<noteq> []"
  shows "group_task env grp = (Inl (Error [Lit ''LAN control not implemented'']), [])"
  using assms by (cases "snd grp") (simp_all add: group_task_def pickAdapter_def lan_control_def)

lemma Promise_all_same:
  "rs \<noteq> [] \<Longrightarrow> \<forall>x \<in> set rs. x = Inl e \<Longrightarrow> Promise_all rs = Inl e"
  by (cases rs) auto

lemma batch_lan:
  assumes "lanEnabled env" and "filter (\<lambda>i. isAllowed env (deviceId i)) items \<noteq> []"
    and "take_bucket bucket clock = Some (bucket', rest)"
  shows "\<exists>out. batch env bucket clock items = Some out
     \<and> result out = Inl (Error [Lit ''LAN control not implemented''])
     \<and> limiter out = bucket' \<and> http_requests (events out) = []"
proof -
  let ?groups = "byDevice (coalesce (filter (\<lambda>i. isAllowed env (deviceId i)) items))"
  let ?e = "Error [Lit ''LAN control not implemented'']"
  have ne: "?groups \<noteq> []"
    using assms(2) by (intro byDevice_not_Nil coalesce_nonempty)
  have task: "group_task env grp = (Inl ?e, [])" if "grp \<in> set ?groups" for grp
    using that byDevice_group_not_Nil [of "fst grp" "snd grp"] assms(1)
    by (intro group_task_lan) auto
  have "Promise_all (map fst (map (group_task env) ?groups)) = Inl ?e"
    using ne task by (intro Promise_all_same) auto
  moreover have "concat (map snd (map (group_task env) ?groups)) = []"
    using task by auto
  ultimately show ?thesis
    using assms(2,3) by (simp add: batch_def Let_def)
qed

lemma get_state_cloud:
  assumes "isAllowed env did" and "\<not> lanEnabled env"
    and "take_bucket bucket clock = Some (bucket', rest)"
  shows "get_state env bucket clock did mdl =
     Some \<lparr>result =
             (case post env ''/device/state'' (StatePayload mdl did) of
                Inl e \<Rightarrow> Inl e
              | Inr out \<Rightarrow>
                  Inr (StateJson
                    (getState_caps env (case out of StateBody caps \<Rightarrow> caps | _ \<Rightarrow> [])))),
           limiter = bucket',
           events = [Take, Http \<lparr>meth = POST, path = ''/device/state'',
                     payload = StatePayload mdl did\<rparr>]\<rparr>"
  using assms
  by (simp add: get_state_def pickAdapter_def cloud_getState_def split: sum.splits)

lemma control_op_cloud_dry:
  assumes "isAllowed env did" and "\<not> lanEnabled env" and "DRY_RUN env"
    and "take_bucket bucket clock = Some (bucket', rest)"
  shows "control_op env bucket clock did mdl c msg =
     Some \<lparr>result = Inr (Text msg), limiter = bucket', events = [Take]\<rparr>"
  using assms by (simp add: control_op_def pickAdapter_def cloud_control_def)

lemma control_each_cloud_ok:
  assumes "\<not> DRY_RUN env" and "\<And>rq. ok (fetch env rq)"
  shows "control_each env Cloud its =
     (Inr (), map (\<lambda>it. \<lparr>meth = POST, path = ''/device/control'',
        payload = ControlPayload (model it) (deviceId it) (control_capability (cmd it))\<rparr>) its)"
  using assms by (induction its) (simp_all add: cloud_control_def post_def Let_def)

lemma Promise_all_ok: "\<forall>x \<in> set rs. x = Inr () \<Longrightarrow> Promise_all rs = Inr ()"
  by (induction rs) auto

lemma batch_cloud:
  assumes "\<not> lanEnabled env" and "filter (\<lambda>i. isAllowed env (deviceId i)) items \<noteq> []"
    and "take_bucket bucket clock = Some (bucket', rest)"
  shows "batch env bucket clock items =
     Some \<lparr>result =
             (case Promise_all (map (\<lambda>grp. fst (control_each env Cloud (snd grp)))
                     (byDevice (coalesce (filter (\<lambda>i. isAllowed env (deviceId i)) items)))) of
                Inl e \<Rightarrow> Inl e
              | Inr u \<Rightarrow>
                  Inr (Text [Lit ''Applied '',
                    Val (of_nat (length
                      (coalesce (filter (\<lambda>i. isAllowed env (deviceId i)) items)))),
                    Lit '' command(s) across '',
                    Val (of_nat (length (byDevice
                      (coalesce (filter (\<lambda>i. isAllowed env (deviceId i)) items))))),
                    Lit '' device(s).''])),
           limiter = bucket',
           events = [Take, Parallel (map (\<lambda>grp. snd (control_each env Cloud (snd grp)))
                     (byDevice (coalesce (filter (\<lambda>i. isAllowed env (deviceId i)) items))))]\<rparr>"
  using assms by (simp add: batch_def Let_def group_task_def pickAdapter_def comp_def)

lemma batch_cloud_ok:
  assumes "\<not> lanEnabled env" and "\<not> DRY_RUN env" and "\<And>rq. ok (fetch env rq)"
    and "filter (\<lambda>i. isAllowed env (deviceId i)) items \<noteq> []"
    and "take_bucket bucket clock = Some (bucket', rest)"
  shows "batch env bucket clock items =
     Some \<lparr>result =
             Inr (Text [Lit ''Applied '',
               Val (of_nat (length
                 (coalesce (filter (\<lambda>i. isAllowed env (deviceId i)) items)))),
               Lit '' command(s) across '',
               Val (of_nat (length (byDevice
                 (coalesce (filter (\<lambda>i. isAllowed env (deviceId i)) items))))),
               Lit '' device(s).'']),
           limiter = bucket',
           events = [Take, Parallel
             (map (\<lambda>grp. map (\<lambda>it. \<lparr>meth = POST, path = ''/device/control'',
                     payload = ControlPayload (model it) (deviceId it)
                       (control_capability (cmd it))\<rparr>) (snd grp))
                (byDevice (coalesce (filter (\<lambda>i. isAllowed env (deviceId i)) items))))]\<rparr>"
proof -
  have "Promise_all (map (\<lambda>grp. fst (control_each env Cloud (snd grp))) groups) = Inr ()"
    for groups :: "(string \<times> BatchItem list) list"
    by (rule Promise_all_ok) (simp add: control_each_cloud_ok [OF assms(2,3)])
  then show ?thesis
    by (simp add: batch_cloud [OF assms(1,4,5)] control_each_cloud_ok [OF assms(2,3)])
qed

text \<open>
  Claim C9. \<^verbatim>\<open>list_devices\<close> does not look at the LAN flag: with the flag set either
  way it gives the same outcome, and once the limiter admits it, its one request is the
  \<^verbatim>\<open>GET /user/devices\<close> of the cloud adapter. \<^verbatim>\<open>pickAdapter\<close> chooses by the flag
  alone, and the other handlers follow it. With the flag set, \<^verbatim>\<open>get_state\<close>, the five
  \<^verbatim>\<open>set_*\<close> handlers and the batch end in the LAN adapter's error and send no request.
  With the flag clear they go to the cloud adapter: \<^verbatim>\<open>get_state\<close> posts the state
  query and returns the decoded answer; each \<^verbatim>\<open>set_*\<close> handler posts its capability
  (or, in a dry run, succeeds without a request); the batch runs each device group through
  the cloud adapter's \<^verbatim>\<open>control\<close>, which, when every answer is a success, posts the
  capability of every surviving item.
\<close>

theorem list_devices_always_cloud:
  "list_devices (env\<lparr>lanEnabled := True\<rparr>) bucket clock
     = list_devices (env\<lparr>lanEnabled := False\<rparr>) bucket clock
   \<and> (\<forall>bucket' rest. take_bucket bucket clock = Some (bucket', rest) \<longrightarrow>
        (\<exists>out. list_devices env bucket clock = Some out \<and> limiter out = bucket' \<and>
           events out = [Take,
             Http \<lparr>meth = GET, path = ''/user/devices'', payload = NoPayload\<rparr>]))
   \<and> pickAdapter env did = (if lanEnabled env then Lan else Cloud)
   \<and> (\<forall>bucket' rest. lanEnabled env \<and> isAllowed env did \<and>
         take_bucket bucket clock = Some (bucket', rest) \<longrightarrow>
         handler env bucket clock (Get_state did mdl) =
           Some \<lparr>result = Inl (Error [Lit ''LAN getState not implemented'']),
                 limiter = bucket', events = [Take]\<rparr>
         \<and> (\<forall>c \<in> {Set_power did mdl on, Set_brightness did mdl x, Set_color did mdl x y z,
                    Set_color_temp did mdl x, Set_scene did mdl sc}.
               handler env bucket clock c =
                 Some \<lparr>result = Inl (Error [Lit ''LAN control not implemented'']),
                       limiter = bucket', events = [Take]\<rparr>))
   \<and> (\<forall>bucket' rest. lanEnabled env \<and>
         filter (\<lambda>i. isAllowed env (deviceId i)) items \<noteq> [] \<and>
         take_bucket bucket clock = Some (bucket', rest) \<longrightarrow>
         (\<exists>out. handler env bucket clock (Batch items) = Some out
            \<and> result out = Inl (Error [Lit ''LAN control not implemented''])
            \<and> limiter out = bucket' \<and> http_requests (events out) = []))
   \<and> (\<forall>bucket' rest. \<not> lanEnabled env \<and> isAllowed env did \<and>
         take_bucket bucket clock = Some (bucket', rest) \<longrightarrow>
         handler env bucket clock (Get_state did mdl) =
           Some \<lparr>result =
                   (case post env ''/device/state'' (StatePayload mdl did) of
                      Inl e \<Rightarrow> Inl e
                    | Inr out \<Rightarrow>
                        Inr (StateJson (getState_caps env
                          (case out of StateBody caps \<Rightarrow> caps | _ \<Rightarrow> [])))),
                 limiter = bucket',
                 events = [Take, Http \<lparr>meth = POST, path = ''/device/state'',
                           payload = StatePayload mdl did\<rparr>]\<rparr>)
   \<and> (\<forall>bucket' rest. \<not> lanEnabled env \<and> \<not> DRY_RUN env \<and> isAllowed env did \<and>
         take_bucket bucket clock = Some (bucket', rest) \<longrightarrow>
         (let rq = (\<lambda>k. \<lparr>meth = POST, path = ''/device/control'',
                          payload = ControlPayload mdl did (control_capability k)\<rparr>);
              sent = (\<lambda>k msg.
                Some \<lparr>result =
                        (if ok (fetch env (rq k)) then Inr (Text msg)
                         else Inl (Error [Lit ''Govee API error '',
                                Val (of_nat (status (fetch env (rq k)))),
                                Lit '': Request failed''])),
                      limiter = bucket', events = [Take, Http (rq k)]\<rparr>)
          in handler env bucket clock (Set_power did mdl on)
               = sent (Turn (if on then On else Off))
                   [Lit ''Power '', Lit (if on then ''on'' else ''off''), Lit '' sent.'']
             \<and> handler env bucket clock (Set_brightness did mdl x)
               = sent (Brightness (Math_round x))
                   [Lit ''Brightness set to '', Val (Math_round x), Lit ''%.'']
             \<and> handler env bucket clock (Set_color did mdl x y z)
               = sent (Color \<lparr>r = x, g = y, b = z\<rparr>)
                   [Lit ''Color set to rgb('', Val x, Lit '','', Val y, Lit '','', Val z,
                    Lit '').'']
             \<and> handler env bucket clock (Set_color_temp did mdl x)
               = sent (ColorTem (Math_round x))
                   [Lit ''Color temp set to '', Val (Math_round x), Lit ''K.'']
             \<and> handler env bucket clock (Set_scene did mdl sc)
               = sent (Scene sc) [Lit ''Scene set to '', Lit sc, Lit ''.'']))
   \<and> (\<forall>bucket' rest. \<not> lanEnabled env \<and> DRY_RUN env \<and> isAllowed env did \<and>
         take_bucket bucket clock = Some (bucket', rest) \<longrightarrow>
         (\<forall>c \<in> {Set_power did mdl on, Set_brightness did mdl x, Set_color did mdl x y z,
                  Set_color_temp did mdl x, Set_scene did mdl sc}.
            \<exists>msg. handler env bucket clock c =
              Some \<lparr>result = Inr (Text msg), limiter = bucket', events = [Take]\<rparr>))
   \<and> (\<forall>bucket' rest. \<not> lanEnabled env \<and>
         filter (\<lambda>i. isAllowed env (deviceId i)) items \<noteq> [] \<and>
         take_bucket bucket clock = Some (bucket', rest) \<longrightarrow>
         handler env bucket clock (Batch items) =
           Some \<lparr>result =
                   (case Promise_all (map (\<lambda>grp. fst (control_each env Cloud (snd grp)))
                           (byDevice (coalesce
                              (filter (\<lambda>i. isAllowed env (deviceId i)) items)))) of
                      Inl e \<Rightarrow> Inl e
                    | Inr u \<Rightarrow>
                        Inr (Text [Lit ''Applied '',
                          Val (of_nat (length
                            (coalesce (filter (\<lambda>i. isAllowed env (deviceId i)) items)))),
                          Lit '' command(s) across '',
                          Val (of_nat (length (byDevice
                            (coalesce (filter (\<lambda>i. isAllowed env (deviceId i)) items))))),
                          Lit '' device(s).''])),
                 limiter = bucket',
                 events = [Take, Parallel (map (\<lambda>grp. snd (control_each env Cloud (snd grp)))
                           (byDevice (coalesce
                              (filter (\<lambda>i. isAllowed env (deviceId i)) items))))]\<rparr>)
   \<and> (\<forall>bucket' rest. \<not> lanEnabled env \<and> \<not> DRY_RUN env \<and> (\<forall>rq. ok (fetch env rq)) \<and>
         filter (\<lambda>i. isAllowed env (deviceId i)) items \<noteq> [] \<and>
         take_bucket bucket clock = Some (bucket', rest) \<longrightarrow>
         handler env bucket clock (Batch items) =
           Some \<lparr>result =
                   Inr (Text [Lit ''Applied '',
                     Val (of_nat (length
                       (coalesce (filter (\<lambda>i. isAllowed env (deviceId i)) items)))),
                     Lit '' command(s) across '',
                     Val (of_nat (length (byDevice
                       (coalesce (filter (\<lambda>i. isAllowed env (deviceId i)) items))))),
                     Lit '' device(s).'']),
                 limiter = bucket',
                 events = [Take, Parallel
                   (map (\<lambda>grp. map (\<lambda>it. \<lparr>meth = POST, path = ''/device/control'',
                           payload = ControlPayload (model it) (deviceId it)
                             (control_capability (cmd it))\<rparr>) (snd grp))
                      (byDevice (coalesce
                         (filter (\<lambda>i. isAllowed env (deviceId i)) items))))]\<rparr>)"
proof -
  have a: "list_devices (env\<lparr>lanEnabled := True\<rparr>) bucket clock
     = list_devices (env\<lparr>lanEnabled := False\<rparr>) bucket clock"
    by (simp only: list_devices_lan_flag)
  have b: "\<forall>bucket' rest. take_bucket bucket clock = Some (bucket', rest) \<longrightarrow>
        (\<exists>out. list_devices env bucket clock = Some out \<and> limiter out = bucket' \<and>
           events out = [Take,
             Http \<lparr>meth = GET, path = ''/user/devices'', payload = NoPayload\<rparr>])"
    using list_devices_events by blast
  have c: "pickAdapter env did = (if lanEnabled env then Lan else Cloud)"
    by (simp add: pickAdapter_def)
  have d: "\<forall>bucket' rest. lanEnabled env \<and> isAllowed env did \<and>
         take_bucket bucket clock = Some (bucket', rest) \<longrightarrow>
         handler env bucket clock (Get_state did mdl) =
           Some \<lparr>result = Inl (Error [Lit ''LAN getState not implemented'']),
                 limiter = bucket', events = [Take]\<rparr>
         \<and> (\<forall>c \<in> {Set_power did mdl on, Set_brightness did mdl x, Set_color did mdl x y z,
                    Set_color_temp did mdl x, Set_scene did mdl sc}.
               handler env bucket clock c =
                 Some \<lparr>result = Inl (Error [Lit ''LAN control not implemented'']),
                       limiter = bucket', events = [Take]\<rparr>)"
    by (simp add: get_state_lan control_op_lan set_power_def set_brightness_def set_color_def
          set_color_temp_def set_scene_def)
  have e: "\<forall>bucket' rest. lanEnabled env \<and>
         filter (\<lambda>i. isAllowed env (deviceId i)) items \<noteq> [] \<and>
         take_bucket bucket clock = Some (bucket', rest) \<longrightarrow>
         (\<exists>out. handler env bucket clock (Batch items) = Some out
            \<and> result out = Inl (Error [Lit ''LAN control not implemented''])
            \<and> limiter out = bucket' \<and> http_requests (events out) = [])"
    using batch_lan [of env items bucket clock] by simp
  have f: "\<forall>bucket' rest. \<not> lanEnabled env \<and> isAllowed env did \<and>
         take_bucket bucket clock = Some (bucket', rest) \<longrightarrow>
         handler env bucket clock (Get_state did mdl) =
           Some \<lparr>result =
                   (case post env ''/device/state'' (StatePayload mdl did) of
                      Inl e \<Rightarrow> Inl e
                    | Inr out \<Rightarrow>
                        Inr (StateJson (getState_caps env
                          (case out of StateBody caps \<Rightarrow> caps | _ \<Rightarrow> [])))),
                 limiter = bucket',
                 events = [Take, Http \<lparr>meth = POST, path = ''/device/state'',
                           payload = StatePayload mdl did\<rparr>]\<rparr>"
    by (simp add: get_state_cloud)
  have g: "\<forall>bucket' rest. \<not> lanEnabled env \<and> \<not> DRY_RUN env \<and> isAllowed env did \<and>
         take_bucket bucket clock = Some (bucket', rest) \<longrightarrow>
         (let rq = (\<lambda>k. \<lparr>meth = POST, path = ''/device/control'',
                          payload = ControlPayload mdl did (control_capability k)\<rparr>);
              sent = (\<lambda>k msg.
                Some \<lparr>result =
                        (if ok (fetch env (rq k)) then Inr (Text msg)
                         else Inl (Error [Lit ''Govee API error '',
                                Val (of_nat (status (fetch env (rq k)))),
                                Lit '': Request failed''])),
                      limiter = bucket', events = [Take, Http (rq k)]\<rparr>)
          in handler env bucket clock (Set_power did mdl on)
               = sent (Turn (if on then On else Off))
                   [Lit ''Power '', Lit (if on then ''on'' else ''off''), Lit '' sent.'']
             \<and> handler env bucket clock (Set_brightness did mdl x)
               = sent (Brightness (Math_round x))
                   [Lit ''Brightness set to '', Val (Math_round x), Lit ''%.'']
             \<and> handler env bucket clock (Set_color did mdl x y z)
               = sent (Color \<lparr>r = x, g = y, b = z\<rparr>)
                   [Lit ''Color set to rgb('', Val x, Lit '','', Val y, Lit '','', Val z,
                    Lit '').'']
             \<and> handler env bucket clock (Set_color_temp did mdl x)
               = sent (ColorTem (Math_round x))
                   [Lit ''Color temp set to '', Val (Math_round x), Lit ''K.'']
             \<and> handler env bucket clock (Set_scene did mdl sc)
               = sent (Scene sc) [Lit ''Scene set to '', Lit sc, Lit ''.''])"
    unfolding Let_def
    by (intro allI impI)
      (simp add: control_op_cloud set_power_def set_brightness_def set_color_def
          set_color_temp_def set_scene_def del: control_capability.simps)
  have h: "\<forall>bucket' rest. \<not> lanEnabled env \<and> DRY_RUN env \<and> isAllowed env did \<and>
         take_bucket bucket clock = Some (bucket', rest) \<longrightarrow>
         (\<forall>c \<in> {Set_power did mdl on, Set_brightness did mdl x, Set_color did mdl x y z,
                  Set_color_temp did mdl x, Set_scene did mdl sc}.
            \<exists>msg. handler env bucket clock c =
              Some \<lparr>result = Inr (Text msg), limiter = bucket', events = [Take]\<rparr>)"
    by (simp add: control_op_cloud_dry set_power_def set_brightness_def set_color_def
          set_color_temp_def set_scene_def)
  have i: "\<forall>bucket' rest. \<not> lanEnabled env \<and>
         filter (\<lambda>i. isAllowed env (deviceId i)) items \<noteq> [] \<and>
         take_bucket bucket clock = Some (bucket', rest) \<longrightarrow>
         handler env bucket clock (Batch items) =
           Some \<lparr>result =
                   (case Promise_all (map (\<lambda>grp. fst (control_each env Cloud (snd grp)))
                           (byDevice (coalesce
                              (filter (\<lambda>i. isAllowed env (deviceId i)) items)))) of
                      Inl e \<Rightarrow> Inl e
                    | Inr u \<Rightarrow>
                        Inr (Text [Lit ''Applied '',
                          Val (of_nat (length
                            (coalesce (filter (\<lambda>i. isAllowed env (deviceId i)) items)))),
                          Lit '' command(s) across '',
                          Val (of_nat (length (byDevice
                            (coalesce (filter (\<lambda>i. isAllowed env (deviceId i)) items))))),
                          Lit '' device(s).''])),
                 limiter = bucket',
                 events = [Take, Parallel (map (\<lambda>grp. snd (control_each env Cloud (snd grp)))
                           (byDevice (coalesce
                              (filter (\<lambda>i. isAllowed env (deviceId i)) items))))]\<rparr>"
    using batch_cloud [of env items bucket clock] by simp
  have j: "\<forall>bucket' rest. \<not> lanEnabled env \<and> \<not> DRY_RUN env \<and> (\<forall>rq. ok (fetch env rq)) \<and>
         filter (\<lambda>i. isAllowed env (deviceId i)) items \<noteq> [] \<and>
         take_bucket bucket clock = Some (bucket', rest) \<longrightarrow>
         handler env bucket clock (Batch items) =
           Some \<lparr>result =
                   Inr (Text [Lit ''Applied '',
                     Val (of_nat (length
                       (coalesce (filter (\<lambda>i. isAllowed env (deviceId i)) items)))),
                     Lit '' command(s) across '',
                     Val (of_nat (length (byDevice
                       (coalesce (filter (\<lambda>i. isAllowed env (deviceId i)) items))))),
                     Lit '' device(s).'']),
                 limiter = bucket',
                 events = [Take, Parallel
                   (map (\<lambda>grp. map (\<lambda>it. \<lparr>meth = POST, path = ''/device/control'',
                           payload = ControlPayload (model it) (deviceId it)
                             (control_capability (cmd it))\<rparr>) (snd grp))
                      (byDevice (coalesce
                         (filter (\<lambda>i. isAllowed env (deviceId i)) items))))]\<rparr>"
    using batch_cloud_ok [of env items bucket clock] by simp
  show ?thesis
    by (intro conjI) (rule a b c d e f g h i j)+
qed

text \<open>
  The theorem with the LAN flag set, where nothing but the listing reaches the vendor, and
  with the flag clear, where the state query, the power switch and the three surviving
  commands of a batch are posted.
\<close>

theorem list_devices_always_cloud_witness:
  "lanEnabled (env_ok\<lparr>lanEnabled := True\<rparr>) \<and> isAllowed (env_ok\<lparr>lanEnabled := True\<rparr>) ''A''
   \<and> filter (\<lambda>i. isAllowed (env_ok\<lparr>lanEnabled := True\<rparr>) (deviceId i)) example_items \<noteq> []
   \<and> list_devices (env_ok\<lparr>lanEnabled := True\<rparr>) (new_limiter 5 0) [0]
       = Some \<lparr>result = Inr (DevicesJson []),
               limiter = \<lparr>capacity = 5, tokens = 4, refillRatePerSec = 5, last_ms = 0\<rparr>,
               events = [Take,
                 Http \<lparr>meth = GET, path = ''/user/devices'', payload = NoPayload\<rparr>]\<rparr>
   \<and> handler (env_ok\<lparr>lanEnabled := True\<rparr>) (new_limiter 5 0) [0] (Get_state ''A'' ''H6104'')
       = Some \<lparr>result = Inl (Error [Lit ''LAN getState not implemented'']),
               limiter = \<lparr>capacity = 5, tokens = 4, refillRatePerSec = 5, last_ms = 0\<rparr>,
               events = [Take]\<rparr>
   \<and> handler (env_ok\<lparr>lanEnabled := True\<rparr>) (new_limiter 5 0) [0]
        (Set_power ''A'' ''H6104'' True)
       = Some \<lparr>result = Inl (Error [Lit ''LAN control not implemented'']),
               limiter = \<lparr>capacity = 5, tokens = 4, refillRatePerSec = 5, last_ms = 0\<rparr>,
               events = [Take]\<rparr>
   \<and> (\<exists>out. handler (env_ok\<lparr>lanEnabled := True\<rparr>) (new_limiter 5 0) [0] (Batch example_items)
              = Some out
          \<and> result out = Inl (Error [Lit ''LAN control not implemented''])
          \<and> http_requests (events out) = [])
   \<and> \<not> lanEnabled env_ok \<and> \<not> DRY_RUN env_ok \<and> isAllowed env_ok ''A''
   \<and> handler env_ok (new_limiter 5 0) [0] (Get_state ''A'' ''H6104'')
       = Some \<lparr>result = Inr (StateJson empty_State),
               limiter = \<lparr>capacity = 5, tokens = 4, refillRatePerSec = 5, last_ms = 0\<rparr>,
               events = [Take, Http \<lparr>meth = POST, path = ''/device/state'',
                         payload = StatePayload ''H6104'' ''A''\<rparr>]\<rparr>
   \<and> handler env_ok (new_limiter 5 0) [0] (Set_power ''A'' ''H6104'' True)
       = Some \<lparr>result = Inr (Text [Lit ''Power '', Lit ''on'', Lit '' sent.'']),
               limiter = \<lparr>capacity = 5, tokens = 4, refillRatePerSec = 5, last_ms = 0\<rparr>,
               events = [Take, Http \<lparr>meth = POST, path = ''/device/control'',
                         payload = ControlPayload ''H6104'' ''A''
                           \<lparr>cap_type = ''devices.capabilities.on_off'',
                            cap_instance = ''powerSwitch'', cap_value = WNum 1\<rparr>\<rparr>]\<rparr>
   \<and> handler env_ok (new_limiter 5 0) [0] (Batch example_items)
       = Some \<lparr>result = Inr (Text [Lit ''Applied '', Val 3, Lit '' command(s) across '', Val 2,
                                   Lit '' device(s).'']),
               limiter = \<lparr>capacity = 5, tokens = 4, refillRatePerSec = 5, last_ms = 0\<rparr>,
               events = [Take, Parallel
                 [[\<lparr>meth = POST, path = ''/device/control'',
                    payload = ControlPayload ''H6104'' ''A''
                      \<lparr>cap_type = ''devices.capabilities.range'',
                       cap_instance = ''brightness'', cap_value = WNum 90\<rparr>\<rparr>,
                   \<lparr>meth = POST, path = ''/device/control'',
                    payload = ControlPayload ''H6104'' ''A''
                      \<lparr>cap_type = ''devices.capabilities.color_setting'',
                       cap_instance = ''colorRgb'', cap_value = WNum 16711680\<rparr>\<rparr>],
                  [\<lparr>meth = POST, path = ''/device/control'',
                    payload = ControlPayload ''H6104'' ''B''
                      \<lparr>cap_type = ''devices.capabilities.on_off'',
                       cap_instance = ''powerSwitch'', cap_value = WNum 1\<rparr>\<rparr>]]]\<rparr>"
proof -
  let ?env = "env_ok\<lparr>lanEnabled := True\<rparr>"
  let ?b' = "\<lparr>capacity = 5, tokens = 4, refillRatePerSec = 5, last_ms = 0\<rparr>"
  have h: "lanEnabled ?env" "isAllowed ?env ''A''"
    "filter (\<lambda>i. isAllowed ?env (deviceId i)) example_items \<noteq> []"
    by (simp_all add: isAllowed_def env_ok_def example_items_def)
  note t = list_devices_always_cloud [of ?env "new_limiter 5 0" "[0]" "''A''" "''H6104''"
      True 50 0 0 "''sunset''" example_items]
  from t take_bucket_full obtain out where
    out: "list_devices ?env (new_limiter 5 0) [0] = Some out" "limiter out = ?b'"
      "events out = [Take, Http \<lparr>meth = GET, path = ''/user/devices'', payload = NoPayload\<rparr>]"
    by blast
  have "result out = Inr (DevicesJson [])"
    using out(1) by (auto simp: list_devices_def cloud_listDevices_def get_def env_ok_def
        split: option.splits)
  with out have 1: "list_devices ?env (new_limiter 5 0) [0]
       = Some \<lparr>result = Inr (DevicesJson []), limiter = ?b',
               events = [Take,
                 Http \<lparr>meth = GET, path = ''/user/devices'', payload = NoPayload\<rparr>]\<rparr>"
    by (cases out) simp
  have 2: "handler ?env (new_limiter 5 0) [0] (Get_state ''A'' ''H6104'')
       = Some \<lparr>result = Inl (Error [Lit ''LAN getState not implemented'']),
               limiter = ?b', events = [Take]\<rparr>"
    and 3: "handler ?env (new_limiter 5 0) [0] (Set_power ''A'' ''H6104'' True)
       = Some \<lparr>result = Inl (Error [Lit ''LAN control not implemented'']),
               limiter = ?b', events = [Take]\<rparr>"
    using t h take_bucket_full by blast+
  have 4: "\<exists>out. handler ?env (new_limiter 5 0) [0] (Batch example_items) = Some out
          \<and> result out = Inl (Error [Lit ''LAN control not implemented''])
          \<and> http_requests (events out) = []"
    using t h take_bucket_full by blast
  have k: "\<not> lanEnabled env_ok" "\<not> DRY_RUN env_ok" "isAllowed env_ok ''A''"
    and okr: "\<forall>rq. ok (fetch env_ok rq)"
    and al: "filter (\<lambda>i. isAllowed env_ok (deviceId i)) example_items = example_items"
    by (simp_all add: isAllowed_def env_ok_def)
  have ne: "filter (\<lambda>i. isAllowed env_ok (deviceId i)) example_items \<noteq> []"
    by (simp add: al) (simp add: example_items_def)
  note u = list_devices_always_cloud [of env_ok "new_limiter 5 0" "[0]" "''A''" "''H6104''"
      True 50 0 0 "''sunset''" example_items]
  have "handler env_ok (new_limiter 5 0) [0] (Get_state ''A'' ''H6104'') =
           Some \<lparr>result =
                   (case post env_ok ''/device/state'' (StatePayload ''H6104'' ''A'') of
                      Inl e \<Rightarrow> Inl e
                    | Inr out \<Rightarrow>
                        Inr (StateJson (getState_caps env_ok
                          (case out of StateBody caps \<Rightarrow> caps | _ \<Rightarrow> [])))),
                 limiter = ?b',
                 events = [Take, Http \<lparr>meth = POST, path = ''/device/state'',
                           payload = StatePayload ''H6104'' ''A''\<rparr>]\<rparr>"
    using u k take_bucket_full by blast
  then have 5: "handler env_ok (new_limiter 5 0) [0] (Get_state ''A'' ''H6104'')
       = Some \<lparr>result = Inr (StateJson empty_State), limiter = ?b',
               events = [Take, Http \<lparr>meth = POST, path = ''/device/state'',
                         payload = StatePayload ''H6104'' ''A''\<rparr>]\<rparr>"
    by (simp add: post_def env_ok_def getState_caps_def)
  have "let rq = (\<lambda>k. \<lparr>meth = POST, path = ''/device/control'',
                          payload = ControlPayload ''H6104'' ''A'' (control_capability k)\<rparr>);
              sent = (\<lambda>k msg.
                Some \<lparr>result =
                        (if ok (fetch env_ok (rq k)) then Inr (Text msg)
                         else Inl (Error [Lit ''Govee API error '',
                                Val (of_nat (status (fetch env_ok (rq k)))),
                                Lit '': Request failed''])),
                      limiter = ?b', events = [Take, Http (rq k)]\<rparr>)
          in handler env_ok (new_limiter 5 0) [0] (Set_power ''A'' ''H6104'' True)
               = sent (Turn (if True then On else Off))
                   [Lit ''Power '', Lit (if True then ''on'' else ''off''), Lit '' sent.'']"
    using u k take_bucket_full unfolding Let_def by blast
  then have 6: "handler env_ok (new_limiter 5 0) [0] (Set_power ''A'' ''H6104'' True)
       = Some \<lparr>result = Inr (Text [Lit ''Power '', Lit ''on'', Lit '' sent.'']),
               limiter = ?b',
               events = [Take, Http \<lparr>meth = POST, path = ''/device/control'',
                         payload = ControlPayload ''H6104'' ''A''
                           \<lparr>cap_type = ''devices.capabilities.on_off'',
                            cap_instance = ''powerSwitch'', cap_value = WNum 1\<rparr>\<rparr>]\<rparr>"
    using okr by (simp add: Let_def)
  have co: "coalesce example_items =
      [\<lparr>deviceId = ''A'', model = ''H6104'', cmd = Brightness 90\<rparr>,
       \<lparr>deviceId = ''B'', model = ''H6104'', cmd = Turn On\<rparr>,
       \<lparr>deviceId = ''A'', model = ''H6104'', cmd = Color \<lparr>r = 255, g = 0, b = 0\<rparr>\<rparr>]"
    by (simp add: coalesce_def key_def example_items_def)
  have by_dev: "byDevice
      [\<lparr>deviceId = ''A'', model = ''H6104'', cmd = Brightness 90\<rparr>,
       \<lparr>deviceId = ''B'', model = ''H6104'', cmd = Turn On\<rparr>,
       \<lparr>deviceId = ''A'', model = ''H6104'', cmd = Color \<lparr>r = 255, g = 0, b = 0\<rparr>\<rparr>] =
      [(''A'', [\<lparr>deviceId = ''A'', model = ''H6104'', cmd = Brightness 90\<rparr>,
                \<lparr>deviceId = ''A'', model = ''H6104'',
                 cmd = Color \<lparr>r = 255, g = 0, b = 0\<rparr>\<rparr>]),
       (''B'', [\<lparr>deviceId = ''B'', model = ''H6104'', cmd = Turn On\<rparr>])]"
    by (simp add: byDevice_def)
  have red: "control_capability (Color \<lparr>r = 255, g = 0, b = 0\<rparr>) =
     \<lparr>cap_type = ''devices.capabilities.color_setting'', cap_instance = ''colorRgb'',
      cap_value = WNum 16711680\<rparr>"
    using encode_color [of 255 0 0] by simp
  have "handler env_ok (new_limiter 5 0) [0] (Batch example_items) =
           Some \<lparr>result =
                   Inr (Text [Lit ''Applied '',
                     Val (of_nat (length
                       (coalesce (filter (\<lambda>i. isAllowed env_ok (deviceId i)) example_items)))),
                     Lit '' command(s) across '',
                     Val (of_nat (length (byDevice
                       (coalesce (filter (\<lambda>i. isAllowed env_ok (deviceId i)) example_items))))),
                     Lit '' device(s).'']),
                 limiter = ?b',
                 events = [Take, Parallel
                   (map (\<lambda>grp. map (\<lambda>it. \<lparr>meth = POST, path = ''/device/control'',
                           payload = ControlPayload (model it) (deviceId it)
                             (control_capability (cmd it))\<rparr>) (snd grp))
                      (byDevice (coalesce
                         (filter (\<lambda>i. isAllowed env_ok (deviceId i)) example_items))))]\<rparr>"
    using u k okr ne take_bucket_full by blast
  then have 7: "handler env_ok (new_limiter 5 0) [0] (Batch example_items)
       = Some \<lparr>result = Inr (Text [Lit ''Applied '', Val 3, Lit '' command(s) across '', Val 2,
                                   Lit '' device(s).'']),
               limiter = ?b',
               events = [Take, Parallel
                 [[\<lparr>meth = POST, path = ''/device/control'',
                    payload = ControlPayload ''H6104'' ''A''
                      \<lparr>cap_type = ''devices.capabilities.range'',
                       cap_instance = ''brightness'', cap_value = WNum 90\<rparr>\<rparr>,
                   \<lparr>meth = POST, path = ''/device/control'',
                    payload = ControlPayload ''H6104'' ''A''
                      \<lparr>cap_type = ''devices.capabilities.color_setting'',
                       cap_instance = ''colorRgb'', cap_value = WNum 16711680\<rparr>\<rparr>],
                  [\<lparr>meth = POST, path = ''/device/control'',
                    payload = ControlPayload ''H6104'' ''B''
                      \<lparr>cap_type = ''devices.capabilities.on_off'',
                       cap_instance = ''powerSwitch'', cap_value = WNum 1\<rparr>\<rparr>]]]\<rparr>"
    by (simp only: al co by_dev) (simp add: red del: control_capability.simps(3))
  show ?thesis
    using h k 1 2 3 4 5 6 7 by blast
qed

subsection \<open>Range checks\<close>


lemma tools_call_callback_with_params:
  "tools_call_callback env bucket clock \<lparr>rpc_method = m, rpc_params = Some c\<rparr> =
     Returned (map_option
       (\<lambda>out. (case result out of
                  Inl (Error msg) \<Rightarrow> ErrorReply (Lit ''Error: '' # msg)
                | Inr ct \<Rightarrow> Reply ct,
                limiter out, events out))
       (handler env bucket clock c))"
  by (simp add: tools_call_callback_def)



end
